theory Spec2Isabelle
  imports Main "HOL-Library.Sublist"
begin

section \<open>Values of the program\<close>

text \<open>
  The lookups of \<^verbatim>\<open>src/models/items-dao-mongodb.js\<close> hand documents of the store to
  \<^verbatim>\<open>JSON.stringify\<close>. A document is a tree of values. Numbers are integers here
  (floating point is outside this development), strings are byte strings, and an
  object identifier is the string of its twelve bytes.
\<close>

type_synonym oid = string

datatype jsval =
    JNull
  | JBool bool
  | JNum int
  | JStr string
  | JOid oid
  | JArr "jsval list"
  | JObj "(string \<times> jsval) list"

text \<open>What the driver and the program can throw or report, and the values a promise
  is rejected with: \<^verbatim>\<open>reject(message)\<close> passes a string, \<^verbatim>\<open>reject(err)\<close> an error
  object.\<close>

datatype js_error = TypeError string | MongoError string

fun message :: "js_error \<Rightarrow> string" where
  "message (TypeError m) = m"
| "message (MongoError m) = m"

datatype reason = Message string | Error js_error

datatype 'a promise = Resolved 'a | Rejected reason

record envelope =
  data :: string
  statusCode :: int

section \<open>Object identifiers of the driver\<close>

definition hex_digit :: "nat \<Rightarrow> char" where
  "hex_digit n = ''0123456789abcdef'' ! n"

definition hex_value :: "char \<Rightarrow> nat option" where
  "hex_value c =
     (let n = (of_char c :: nat) in
      if 48 \<le> n \<and> n \<le> 57 then Some (n - 48)
      else if 97 \<le> n \<and> n \<le> 102 then Some (n - 87)
      else if 65 \<le> n \<and> n \<le> 70 then Some (n - 55)
      else None)"

definition is_hex :: "char \<Rightarrow> bool" where
  "is_hex c = (hex_value c \<noteq> None)"

definition hex_byte :: "char \<Rightarrow> string" where
  "hex_byte c = [hex_digit ((of_char c :: nat) div 16), hex_digit ((of_char c :: nat) mod 16)]"

text \<open>\<^verbatim>\<open>ObjectID.prototype.toHexString\<close>: two lower-case digits for each byte.\<close>

definition toHexString :: "oid \<Rightarrow> string" where
  "toHexString b = concat (map hex_byte b)"

text \<open>\<^verbatim>\<open>ObjectID.createFromHexString\<close>, on a string of hexadecimal digits.\<close>

fun createFromHexString :: "string \<Rightarrow> oid" where
  "createFromHexString (h # l # s) =
     char_of (the (hex_value h) * 16 + the (hex_value l)) # createFromHexString s"
| "createFromHexString s = []"

text \<open>
  \<^verbatim>\<open>new mongodb.ObjectID(id)\<close> for a string argument: a string of 24 hexadecimal
  digits is decoded, a string of 12 characters is taken as the bytes themselves, and
  anything else makes the constructor throw.
\<close>

definition ObjectID :: "string \<Rightarrow> js_error + oid" where
  "ObjectID s =
     (if length s = 24 \<and> list_all is_hex s then Inr (createFromHexString s)
      else if length s = 12 then Inr s
      else Inl (TypeError
        ''Argument passed in must be a single String of 12 bytes or a string of 24 hex characters''))"

section \<open>JSON text\<close>

text \<open>Decimal digits of an integer, as \<^verbatim>\<open>String(n)\<close> and \<^verbatim>\<open>JSON.stringify(n)\<close> print
  them.\<close>

function show_nat :: "nat \<Rightarrow> string" where
  "show_nat n = (if n < 10 then [hex_digit n] else show_nat (n div 10) @ [hex_digit (n mod 10)])"
  by pat_completeness auto
termination
  by (relation "measure id") auto

definition show_int :: "int \<Rightarrow> string" where
  "show_int n = (if n < 0 then CHR ''-'' # show_nat (nat (- n)) else show_nat (nat n))"

text \<open>\<^verbatim>\<open>QuoteJSONString\<close>: the quotation mark and the backslash are escaped, the control
  characters below 0x20 are written with their short escape or as \<^verbatim>\<open>\u00XX\<close>, every
  other character stands for itself.\<close>

definition quote_char :: "char \<Rightarrow> string" where
  "quote_char c =
     (if c = CHR 0x22 then [CHR 0x5C, CHR 0x22]
      else if c = CHR 0x5C then [CHR 0x5C, CHR 0x5C]
      else if c = CHR 0x08 then [CHR 0x5C, CHR ''b'']
      else if c = CHR 0x0C then [CHR 0x5C, CHR ''f'']
      else if c = CHR 0x0A then [CHR 0x5C, CHR ''n'']
      else if c = CHR 0x0D then [CHR 0x5C, CHR ''r'']
      else if c = CHR 0x09 then [CHR 0x5C, CHR ''t'']
      else if (of_char c :: nat) < 32 then [CHR 0x5C, CHR ''u'', CHR ''0'', CHR ''0''] @ hex_byte c
      else [c])"

definition quote :: "string \<Rightarrow> string" where
  "quote s = CHR 0x22 # concat (map quote_char s) @ [CHR 0x22]"

text \<open>\<^verbatim>\<open>JSON.stringify(value)\<close> with no indentation. An object identifier is written
  through its \<^verbatim>\<open>toJSON\<close>, the hexadecimal string.\<close>

fun JSON_stringify :: "jsval \<Rightarrow> string"
  and stringify_elements :: "jsval list \<Rightarrow> string"
  and stringify_members :: "(string \<times> jsval) list \<Rightarrow> string" where
  "JSON_stringify JNull = ''null''"
| "JSON_stringify (JBool b) = (if b then ''true'' else ''false'')"
| "JSON_stringify (JNum n) = show_int n"
| "JSON_stringify (JStr s) = quote s"
| "JSON_stringify (JOid b) = quote (toHexString b)"
| "JSON_stringify (JArr vs) = ''['' @ stringify_elements vs @ '']''"
| "JSON_stringify (JObj kvs) = ''{'' @ stringify_members kvs @ ''}''"
| "stringify_elements [] = []"
| "stringify_elements [v] = JSON_stringify v"
| "stringify_elements (v # w # vs) = JSON_stringify v @ '','' @ stringify_elements (w # vs)"
| "stringify_members [] = []"
| "stringify_members [(k, v)] = quote k @ '':'' @ JSON_stringify v"
| "stringify_members ((k, v) # m # ms) =
     quote k @ '':'' @ JSON_stringify v @ '','' @ stringify_members (m # ms)"

text \<open>The value a reader of the text gets back: the same tree, with every object
  identifier replaced by its hexadecimal string.\<close>

fun toJSON :: "jsval \<Rightarrow> jsval"
  and toJSON_elements :: "jsval list \<Rightarrow> jsval list"
  and toJSON_members :: "(string \<times> jsval) list \<Rightarrow> (string \<times> jsval) list" where
  "toJSON JNull = JNull"
| "toJSON (JBool b) = JBool b"
| "toJSON (JNum n) = JNum n"
| "toJSON (JStr s) = JStr s"
| "toJSON (JOid b) = JStr (toHexString b)"
| "toJSON (JArr vs) = JArr (toJSON_elements vs)"
| "toJSON (JObj kvs) = JObj (toJSON_members kvs)"
| "toJSON_elements [] = []"
| "toJSON_elements (v # vs) = toJSON v # toJSON_elements vs"
| "toJSON_members [] = []"
| "toJSON_members ((k, v) # ms) = (k, toJSON v) # toJSON_members ms"

text \<open>
  The reader the round-trip statements use: it accepts the compact texts that
  \<^verbatim>\<open>JSON.stringify\<close> writes (no white space between tokens, integers only) and
  returns the value read with the rest of the input. Nesting is bounded by the fuel,
  which \<open>JSON_parse\<close> sets above the length of the text.
\<close>

definition is_digit :: "char \<Rightarrow> bool" where
  "is_digit c = (48 \<le> (of_char c :: nat) \<and> (of_char c :: nat) \<le> 57)"

definition read_nat :: "string \<Rightarrow> nat" where
  "read_nat ds = foldl (\<lambda>a c. a * 10 + ((of_char c :: nat) - 48)) 0 ds"

definition parse_digits :: "string \<Rightarrow> (nat \<times> string) option" where
  "parse_digits s =
     (let ds = takeWhile is_digit s in
      if ds = [] \<or> (1 < length ds \<and> hd ds = CHR ''0'') then None
      else Some (read_nat ds, dropWhile is_digit s))"

definition unescape :: "char \<Rightarrow> char option" where
  "unescape e =
     (if e = CHR 0x22 then Some (CHR 0x22)
      else if e = CHR 0x5C then Some (CHR 0x5C)
      else if e = CHR ''/'' then Some (CHR ''/'')
      else if e = CHR ''b'' then Some (CHR 0x08)
      else if e = CHR ''f'' then Some (CHR 0x0C)
      else if e = CHR ''n'' then Some (CHR 0x0A)
      else if e = CHR ''r'' then Some (CHR 0x0D)
      else if e = CHR ''t'' then Some (CHR 0x09)
      else None)"

text \<open>A \<^verbatim>\<open>\uXXXX\<close> escape; only code points that fit a byte are read.\<close>

definition hex4 :: "char \<Rightarrow> char \<Rightarrow> char \<Rightarrow> char \<Rightarrow> char option" where
  "hex4 a b c d =
     (case (hex_value a, hex_value b, hex_value c, hex_value d) of
        (Some x, Some y, Some z, Some u) \<Rightarrow>
          (if x = 0 \<and> y = 0 then Some (char_of (z * 16 + u)) else None)
      | _ \<Rightarrow> None)"

definition cons_char :: "char \<Rightarrow> (string \<times> string) option \<Rightarrow> (string \<times> string) option" where
  "cons_char c r = map_option (\<lambda>(x, t). (c # x, t)) r"

text \<open>The characters of a string literal, after its opening quotation mark.\<close>

fun parse_chars :: "string \<Rightarrow> (string \<times> string) option" where
  "parse_chars [] = None"
| "parse_chars (c # s) =
     (if c = CHR 0x22 then Some ([], s)
      else if c = CHR 0x5C then
        (case s of
           [] \<Rightarrow> None
         | e # t \<Rightarrow>
             if e = CHR ''u'' then
               (case t of
                  a # b # x # y # t' \<Rightarrow>
                    (case hex4 a b x y of None \<Rightarrow> None | Some k \<Rightarrow> cons_char k (parse_chars t'))
                | _ \<Rightarrow> None)
             else (case unescape e of None \<Rightarrow> None | Some k \<Rightarrow> cons_char k (parse_chars t)))
      else if (of_char c :: nat) < 32 then None
      else cons_char c (parse_chars s))"

definition expect :: "string \<Rightarrow> string \<Rightarrow> jsval \<Rightarrow> (jsval \<times> string) option" where
  "expect word s v = (if prefix word s then Some (v, drop (length word) s) else None)"

fun parse_value :: "nat \<Rightarrow> string \<Rightarrow> (jsval \<times> string) option"
  and parse_elements :: "nat \<Rightarrow> string \<Rightarrow> (jsval list \<times> string) option"
  and parse_members :: "nat \<Rightarrow> string \<Rightarrow> ((string \<times> jsval) list \<times> string) option" where
  "parse_value 0 s = None"
| "parse_value (Suc n) [] = None"
| "parse_value (Suc n) (c # s) =
     (if c = CHR ''n'' then expect ''ull'' s JNull
      else if c = CHR ''t'' then expect ''rue'' s (JBool True)
      else if c = CHR ''f'' then expect ''alse'' s (JBool False)
      else if c = CHR 0x22 then map_option (\<lambda>(x, r). (JStr x, r)) (parse_chars s)
      else if c = CHR ''-'' then map_option (\<lambda>(k, r). (JNum (- int k), r)) (parse_digits s)
      else if is_digit c then map_option (\<lambda>(k, r). (JNum (int k), r)) (parse_digits (c # s))
      else if c = CHR ''['' then
        (if prefix '']'' s then Some (JArr [], tl s)
         else map_option (\<lambda>(vs, r). (JArr vs, r)) (parse_elements n s))
      else if c = CHR ''{'' then
        (if prefix ''}'' s then Some (JObj [], tl s)
         else map_option (\<lambda>(ms, r). (JObj ms, r)) (parse_members n s))
      else None)"
| "parse_elements 0 s = None"
| "parse_elements (Suc n) s =
     (case parse_value n s of
        None \<Rightarrow> None
      | Some (v, r) \<Rightarrow>
          (case r of
             [] \<Rightarrow> None
           | c # r' \<Rightarrow>
               if c = CHR '','' then map_option (\<lambda>(vs, t). (v # vs, t)) (parse_elements n r')
               else if c = CHR '']'' then Some ([v], r')
               else None))"
| "parse_members 0 s = None"
| "parse_members (Suc n) [] = None"
| "parse_members (Suc n) (q # s) =
     (if q \<noteq> CHR 0x22 then None
      else
        (case parse_chars s of
           None \<Rightarrow> None
         | Some (k, r) \<Rightarrow>
             (case r of
                [] \<Rightarrow> None
              | c # r1 \<Rightarrow>
                  if c \<noteq> CHR '':'' then None
                  else
                    (case parse_value n r1 of
                       None \<Rightarrow> None
                     | Some (v, r2) \<Rightarrow>
                         (case r2 of
                            [] \<Rightarrow> None
                          | c2 # r3 \<Rightarrow>
                              if c2 = CHR '','' then
                                map_option (\<lambda>(ms, t). ((k, v) # ms, t)) (parse_members n r3)
                              else if c2 = CHR ''}'' then Some ([(k, v)], r3)
                              else None)))))"

definition JSON_parse :: "string \<Rightarrow> jsval option" where
  "JSON_parse s =
     (case parse_value (Suc (length s)) s of
        Some (v, []) \<Rightarrow> Some v
      | _ \<Rightarrow> None)"

text \<open>Reading a property of a parsed value. A name written twice in the text keeps
  its last value, as in the object \<^verbatim>\<open>JSON.parse\<close> builds.\<close>

definition property :: "jsval \<Rightarrow> string \<Rightarrow> jsval option" where
  "property v name = (case v of JObj kvs \<Rightarrow> map_of (rev kvs) name | _ \<Rightarrow> None)"

text \<open>Where a number may end: at the end of the text or before a character that is
  not a digit.\<close>

definition at_boundary :: "string \<Rightarrow> bool" where
  "at_boundary rest = (case rest of [] \<Rightarrow> True | c # r \<Rightarrow> \<not> is_digit c)"

section \<open>The store and its driver\<close>

text \<open>
  Modelled from the spec: the shape of an Item document. The item schema is not among
  the source files; the spec describes an Item as a document with a store-assigned
  identifier, a description, a UPC code and arbitrary further catalog fields. The two
  query fields carry the names the source uses in its filters.
\<close>

record item =
  obj_id :: oid
  itemDescription :: string
  upc :: string
  extra :: "(string \<times> jsval) list"

definition document_of :: "item \<Rightarrow> jsval" where
  "document_of d =
     JObj ((''_id'', JOid (obj_id d)) # (''itemDescription'', JStr (itemDescription d))
           # (''upc'', JStr (upc d)) # extra d)"

definition field_of :: "item \<Rightarrow> string \<Rightarrow> jsval option" where
  "field_of d name = (case document_of d of JObj kvs \<Rightarrow> map_of kvs name | _ \<Rightarrow> None)"

text \<open>The two filter shapes the source builds: \<^verbatim>\<open>{ field: value }\<close> and
  \<^verbatim>\<open>{ field: { $regex: pattern, $options: options } }\<close>.\<close>

datatype condition = Equals jsval | Regex string string

type_synonym query = "string \<times> condition"

text \<open>
  The store behind the connection: its collections, the failure it currently answers
  every request with (connectivity loss and the like), and its pattern engine, which
  either refuses a pattern or decides which strings contain a match for it.
\<close>

record store =
  collections :: "string \<Rightarrow> item list"
  failure :: "js_error option"
  regex_engine :: "string \<Rightarrow> string \<Rightarrow> js_error + (string \<Rightarrow> bool)"

record collection_handle =
  of_db :: store
  collection_name :: string

definition collection :: "store \<Rightarrow> string \<Rightarrow> collection_handle" where
  "collection database name = \<lparr>of_db = database, collection_name = name\<rparr>"

definition satisfies :: "(string \<Rightarrow> bool) \<Rightarrow> string \<Rightarrow> item \<Rightarrow> bool" where
  "satisfies matcher name d = (case field_of d name of Some (JStr s) \<Rightarrow> matcher s | _ \<Rightarrow> False)"

text \<open>The documents a filter selects, in the collection's order, or the failure the
  store reports for the request.\<close>

definition select :: "collection_handle \<Rightarrow> query \<Rightarrow> js_error + item list" where
  "select c q =
     (case failure (of_db c) of
        Some err \<Rightarrow> Inl err
      | None \<Rightarrow>
          (case snd q of
             Equals v \<Rightarrow>
               Inr (filter (\<lambda>d. field_of d (fst q) = Some v)
                      (collections (of_db c) (collection_name c)))
           | Regex pattern options \<Rightarrow>
               (case regex_engine (of_db c) pattern options of
                  Inl err \<Rightarrow> Inl err
                | Inr matcher \<Rightarrow>
                    Inr (filter (satisfies matcher (fst q))
                           (collections (of_db c) (collection_name c))))))"

text \<open>\<^verbatim>\<open>collection.findOne(filter)\<close>: the first selected document, or \<^verbatim>\<open>null\<close>.\<close>

definition findOne :: "collection_handle \<Rightarrow> query \<Rightarrow> js_error + item option" where
  "findOne c q =
     (case select c q of
        Inl err \<Rightarrow> Inl err
      | Inr [] \<Rightarrow> Inr None
      | Inr (d # ds) \<Rightarrow> Inr (Some d))"

text \<open>\<^verbatim>\<open>collection.find(filter).toArray(callback)\<close>: every selected document.\<close>

definition find_toArray :: "collection_handle \<Rightarrow> query \<Rightarrow> js_error + item list" where
  "find_toArray c q = select c q"

section \<open>The module state and the logger\<close>

text \<open>
  The module holds one variable, \<^verbatim>\<open>db\<close>, undefined until the connection is there.
  The state also keeps the lines handed to the logger, each with its level, its
  message and its source label.
\<close>

record world =
  db :: "store option"
  logged :: "(string \<times> string \<times> string) list"

text \<open>
  Modelled from the spec: the logger. \<^verbatim>\<open>utils/logger\<close> is not among the source
  files; the spec describes it as a sink that accepts a message and a source label and
  takes no part in control flow. Each call adds one line.
\<close>

definition logger_info :: "string \<Rightarrow> string \<Rightarrow> world \<Rightarrow> world" where
  "logger_info msg source w = w\<lparr>logged := logged w @ [(''INFO'', msg, source)]\<rparr>"

definition logger_error :: "string \<Rightarrow> string \<Rightarrow> world \<Rightarrow> world" where
  "logger_error msg source w = w\<lparr>logged := logged w @ [(''ERROR'', msg, source)]\<rparr>"

text \<open>
  \<^verbatim>\<open>getDbConnection\<close> runs when the module is loaded: it logs, asks
  \<^verbatim>\<open>utils.dbConnect()\<close> for the connection and returns at once. The answer arrives
  later; \<^verbatim>\<open>utils/utils\<close> is not among the source files, so the answer is a parameter.
\<close>

definition getDbConnection :: "world \<Rightarrow> world" where
  "getDbConnection w =
     logger_info ''Initializing MongoDB connection...'' ''items-dao-mongogb.getDbConnection()'' w"

definition dbConnect_settled :: "js_error + store \<Rightarrow> world \<Rightarrow> world" where
  "dbConnect_settled answer w =
     (case answer of
        Inr database \<Rightarrow>
          (logger_info ''MongoDB connection initialized.'' ''items-dao-mongogb.getDbConnection()'' w)
            \<lparr>db := Some database\<rparr>
      | Inl err \<Rightarrow>
          logger_error (''Error while initializing DB: '' @ message err)
            ''items-dao-mongogb.getDbConnection()'' w)"

definition module_loaded :: world where
  "module_loaded = getDbConnection \<lparr>db = None, logged = []\<rparr>"

section \<open>The three lookups\<close>

text \<open>Reading \<^verbatim>\<open>db.collection\<close> while \<^verbatim>\<open>db\<close> is undefined throws this error.\<close>

definition undefined_db :: js_error where
  "undefined_db =
     TypeError (''Cannot read property '' @ [CHR 0x27] @ ''collection'' @ [CHR 0x27] @ '' of undefined'')"

text \<open>
  Each lookup builds its promise with \<^verbatim>\<open>new Promise((resolve, reject) => ...)\<close>. What
  the executor throws before the driver is called rejects the promise with the thrown
  value. A lookup returns the settled promise and the module state after it.
\<close>

definition findById :: "string \<Rightarrow> world \<Rightarrow> envelope promise \<times> world" where
  "findById ident w =
     (case db w of
        None \<Rightarrow> (Rejected (Error undefined_db), w)
      | Some database \<Rightarrow>
          (let items = collection database ''items'' in
           case ObjectID ident of
             Inl thrown \<Rightarrow> (Rejected (Error thrown), w)
           | Inr key \<Rightarrow>
               (case findOne items (''_id'', Equals (JOid key)) of
                  Inr (Some document) \<Rightarrow>
                    (Resolved \<lparr>data = JSON_stringify (document_of document), statusCode = 200\<rparr>, w)
                | Inr None \<Rightarrow>
                    (let msg = ''No document matching id: '' @ ident @ '' could be found!''
                     in (Rejected (Message msg), logger_error msg ''findById()'' w))
                | Inl err \<Rightarrow>
                    (Rejected (Error err),
                     logger_error (''Error occurred: '' @ message err) ''findById()'' w))))"

definition findByDescription :: "string \<Rightarrow> world \<Rightarrow> envelope promise \<times> world" where
  "findByDescription partialDescription w =
     (case db w of
        None \<Rightarrow> (Rejected (Error undefined_db), w)
      | Some database \<Rightarrow>
          (let items = collection database ''items'';
               search = ''.*'' @ partialDescription @ ''.*''
           in case find_toArray items (''itemDescription'', Regex search ''i'') of
                Inl err \<Rightarrow> (Rejected (Error err), w)
              | Inr documents \<Rightarrow>
                  (Resolved \<lparr>data = JSON_stringify (JArr (map document_of documents)),
                             statusCode = (if length documents > 0 then 200 else 404)\<rparr>, w)))"

text \<open>The template literal \<^verbatim>\<open>`${upc}`\<close> turns its argument into a string.\<close>

datatype primitive = PStr string | PNum int | PBool bool | PNull | PUndefined

fun js_String :: "primitive \<Rightarrow> string" where
  "js_String (PStr s) = s"
| "js_String (PNum n) = show_int n"
| "js_String (PBool b) = (if b then ''true'' else ''false'')"
| "js_String PNull = ''null''"
| "js_String PUndefined = ''undefined''"

definition findByUpc :: "primitive \<Rightarrow> world \<Rightarrow> envelope promise \<times> world" where
  "findByUpc code w =
     (case db w of
        None \<Rightarrow> (Rejected (Error undefined_db), w)
      | Some database \<Rightarrow>
          (let items = collection database ''items'' in
           case findOne items (''upc'', Equals (JStr (js_String code))) of
             Inl err \<Rightarrow>
               (Rejected (Error err),
                logger_error (''Error occurred: '' @ message err) ''findById()'' w)
           | Inr document \<Rightarrow>
               (Resolved \<lparr>data = JSON_stringify (case document of None \<Rightarrow> JNull | Some d \<Rightarrow> document_of d),
                          statusCode = (if document \<noteq> None then 200 else 404)\<rparr>, w)))"

section \<open>A fragment of the store's pattern language\<close>

text \<open>
  The store matches \<^verbatim>\<open>$regex\<close> filters with a Perl-compatible engine. The fragment
  below covers what the search pattern of \<^verbatim>\<open>findByDescription\<close> is made of when the
  text carries no character with a special meaning other than the dot and the three
  one-character quantifiers: a pattern is a sequence of atoms (a literal character or
  the dot), each followed by at most one of \<^verbatim>\<open>*\<close>, \<^verbatim>\<open>+\<close>, \<^verbatim>\<open>?\<close>. The dot matches every
  character but the line feed. A pattern that starts with a quantifier is refused, as
  the engine refuses it; every other pattern outside the fragment is not modelled and
  \<open>compile\<close> gives no program for it.
\<close>

datatype atom = Lit char | AnyChar

datatype rep = Once | Star | Plus | Opt

type_synonym program = "(atom \<times> rep) list"

definition metacharacters :: string where
  "metacharacters = CHR 0x5C # ''^$.[]|()?*+{}''"

definition atom_of :: "char \<Rightarrow> atom option" where
  "atom_of c =
     (if c = CHR ''.'' then Some AnyChar
      else if c \<in> set metacharacters then None
      else Some (Lit c))"

definition quantifier :: "char \<Rightarrow> rep option" where
  "quantifier q =
     (if q = CHR ''*'' then Some Star
      else if q = CHR ''+'' then Some Plus
      else if q = CHR ''?'' then Some Opt
      else None)"

fun compile :: "string \<Rightarrow> program option" where
  "compile [] = Some []"
| "compile [c] = (case atom_of c of None \<Rightarrow> None | Some a \<Rightarrow> Some [(a, Once)])"
| "compile (c # q # s) =
     (case atom_of c of
        None \<Rightarrow> None
      | Some a \<Rightarrow>
          (case quantifier q of
             None \<Rightarrow> map_option (Cons (a, Once)) (compile (q # s))
           | Some r \<Rightarrow> map_option (Cons (a, r)) (compile s)))"

text \<open>Letters are compared without their case when the option \<^verbatim>\<open>i\<close> is given.\<close>

definition lower :: "char \<Rightarrow> char" where
  "lower c =
     (case map_of (zip ''ABCDEFGHIJKLMNOPQRSTUVWXYZ'' ''abcdefghijklmnopqrstuvwxyz'') c of
        Some l \<Rightarrow> l
      | None \<Rightarrow> c)"

fun accepts :: "bool \<Rightarrow> atom \<Rightarrow> char \<Rightarrow> bool" where
  "accepts ci AnyChar c = (c \<noteq> CHR 0x0A)"
| "accepts ci (Lit x) c = (if ci then lower x = lower c else x = c)"

text \<open>Whether the program matches at the start of the subject.\<close>

fun matches_here :: "bool \<Rightarrow> program \<Rightarrow> string \<Rightarrow> bool" where
  "matches_here ci [] s = True"
| "matches_here ci ((a, Once) # r) [] = False"
| "matches_here ci ((a, Once) # r) (c # s) = (accepts ci a c \<and> matches_here ci r s)"
| "matches_here ci ((a, Opt) # r) [] = matches_here ci r []"
| "matches_here ci ((a, Opt) # r) (c # s) =
     (matches_here ci r (c # s) \<or> (accepts ci a c \<and> matches_here ci r s))"
| "matches_here ci ((a, Star) # r) [] = matches_here ci r []"
| "matches_here ci ((a, Star) # r) (c # s) =
     (matches_here ci r (c # s) \<or> (accepts ci a c \<and> matches_here ci ((a, Star) # r) s))"
| "matches_here ci ((a, Plus) # r) [] = False"
| "matches_here ci ((a, Plus) # r) (c # s) =
     (accepts ci a c \<and> matches_here ci ((a, Star) # r) s)"

text \<open>An unanchored pattern matches when it matches at some position.\<close>

fun search :: "bool \<Rightarrow> program \<Rightarrow> string \<Rightarrow> bool" where
  "search ci r [] = matches_here ci r []"
| "search ci r (c # s) = (matches_here ci r (c # s) \<or> search ci r s)"

definition pcre_fragment :: "string \<Rightarrow> string \<Rightarrow> js_error + (string \<Rightarrow> bool)" where
  "pcre_fragment pattern options =
     (if options \<noteq> ''i'' \<and> options \<noteq> [] then Inl (MongoError ''options outside the fragment'')
      else
        (case compile pattern of
           None \<Rightarrow> Inl (MongoError ''Regular expression is invalid or outside the fragment'')
         | Some r \<Rightarrow> Inr (search (options = ''i'') r)))"

text \<open>What the claim about \<^verbatim>\<open>findByDescription\<close> compares with: the text occurs in
  the description, letters compared without their case.\<close>

definition contains_ci :: "string \<Rightarrow> string \<Rightarrow> bool" where
  "contains_ci description s = sublist (map lower s) (map lower description)"

text \<open>A text none of whose characters has a special meaning in a pattern.\<close>

definition literal :: "string \<Rightarrow> bool" where
  "literal s = (\<forall>c \<in> set s. c \<notin> set metacharacters)"

section \<open>The Brand schema\<close>

text \<open>
  \<^verbatim>\<open>src/models/brand-schema.js\<close> declares six paths, each with a type and a
  \<^verbatim>\<open>required\<close> flag.
\<close>

datatype schema_type = ObjectId | SchemaString

record schema_path =
  path_type :: schema_type
  required :: bool

definition brandSchema :: "(string \<times> schema_path) list" where
  "brandSchema =
     [(''_id'', \<lparr>path_type = ObjectId, required = True\<rparr>),
      (''id'', \<lparr>path_type = ObjectId, required = True\<rparr>),
      (''description'', \<lparr>path_type = SchemaString, required = True\<rparr>),
      (''manufacturer'', \<lparr>path_type = SchemaString, required = False\<rparr>),
      (''address'', \<lparr>path_type = SchemaString, required = False\<rparr>),
      (''website'', \<lparr>path_type = SchemaString, required = False\<rparr>)]"

text \<open>
  Validation of a document against a schema, as the schema library runs it for the
  declarations above: a path that is absent or \<^verbatim>\<open>null\<close> passes only when it is not
  required; a value that is there has the declared type, and a required string is
  not empty. The library's conversions between types are not modelled.
\<close>

fun conforms :: "schema_type \<Rightarrow> jsval \<Rightarrow> bool" where
  "conforms ObjectId (JOid b) = (length b = 12)"
| "conforms SchemaString (JStr s) = True"
| "conforms t v = False"

definition path_ok :: "(string \<times> jsval) list \<Rightarrow> string \<times> schema_path \<Rightarrow> bool" where
  "path_ok doc p =
     (case map_of doc (fst p) of
        None \<Rightarrow> \<not> required (snd p)
      | Some JNull \<Rightarrow> \<not> required (snd p)
      | Some v \<Rightarrow> conforms (path_type (snd p)) v \<and> \<not> (required (snd p) \<and> v = JStr []))"

definition accepted :: "(string \<times> schema_path) list \<Rightarrow> (string \<times> jsval) list \<Rightarrow> bool" where
  "accepted schema doc = list_all (path_ok doc) schema"

definition present :: "(string \<times> jsval) list \<Rightarrow> string \<Rightarrow> bool" where
  "present doc name = (case map_of doc name of None \<Rightarrow> False | Some JNull \<Rightarrow> False | Some v \<Rightarrow> True)"

text \<open>The document without the paths of the given names.\<close>

definition omit :: "string list \<Rightarrow> (string \<times> jsval) list \<Rightarrow> (string \<times> jsval) list" where
  "omit names doc = filter (\<lambda>kv. fst kv \<notin> set names) doc"

section \<open>Stored items and example states\<close>

text \<open>A valid stored item: its identifier has twelve bytes and its fields have
  different names.\<close>

definition valid_item :: "item \<Rightarrow> bool" where
  "valid_item d =
     (length (obj_id d) = 12
      \<and> distinct (''_id'' # ''itemDescription'' # ''upc'' # map fst (extra d)))"

text \<open>The item of the spec's scenario, a second item whose description carries a
  quantifier character, and stores that hold them.\<close>

definition widget :: item where
  "widget = \<lparr>obj_id = ''abcdefghijkl'', itemDescription = ''Red Widget'', upc = ''00012345'',
              extra = [(''price'', JNum 250)]\<rparr>"

definition soap :: item where
  "soap = \<lparr>obj_id = ''mnopqrstuvwx'', itemDescription = ''Buy 1+1 Soap'', upc = ''00099999'',
            extra = []\<rparr>"

definition catalog :: store where
  "catalog =
     \<lparr>collections = (\<lambda>name. if name = ''items'' then [widget, soap] else []),
      failure = None,
      regex_engine = pcre_fragment\<rparr>"

definition unreachable :: store where
  "unreachable = catalog\<lparr>failure := Some (MongoError ''connection closed'')\<rparr>"

definition ready :: world where
  "ready = dbConnect_settled (Inr catalog) module_loaded"

definition broken :: world where
  "broken = dbConnect_settled (Inr unreachable) module_loaded"

definition minimal_brand :: "(string \<times> jsval) list" where
  "minimal_brand =
     [(''_id'', JOid ''abcdefghijkl''), (''id'', JOid ''abcdefghijkl''),
      (''description'', JStr ''Acme'')]"

definition full_brand :: "(string \<times> jsval) list" where
  "full_brand =
     minimal_brand @ [(''manufacturer'', JStr ''Acme Corp''), (''website'', JStr ''acme.example'')]"

section \<open>Identifiers and JSON text: round trips\<close>

declare show_nat.simps [simp del]

lemma hex_digit_list:
  "list_all (\<lambda>k. hex_value (hex_digit k) = Some k \<and> is_hex (hex_digit k)
     \<and> (k < 10 \<longrightarrow> is_digit (hex_digit k) \<and> (of_char (hex_digit k) :: nat) = 48 + k)) [0..<16]"
  by code_simp

lemma hex_digit_table:
  "k < 16 \<Longrightarrow> hex_value (hex_digit k) = Some k \<and> is_hex (hex_digit k)
     \<and> (k < 10 \<longrightarrow> is_digit (hex_digit k) \<and> (of_char (hex_digit k) :: nat) = 48 + k)"
  using hex_digit_list unfolding list_all_iff by simp

lemma hex_value_hex_digit: "k < 16 \<Longrightarrow> hex_value (hex_digit k) = Some k"
  using hex_digit_table by auto

lemma is_hex_hex_digit: "k < 16 \<Longrightarrow> is_hex (hex_digit k)"
  using hex_digit_table by auto

lemma is_digit_hex_digit: "k < 10 \<Longrightarrow> is_digit (hex_digit k)"
  using hex_digit_table by auto

lemma of_char_hex_digit: "k < 10 \<Longrightarrow> (of_char (hex_digit k) :: nat) = 48 + k"
  using hex_digit_table by auto

lemma nibbles: "(of_char c :: nat) div 16 < 16" "(of_char c :: nat) mod 16 < 16"
proof -
  have "(of_char c :: nat) < 16 * 16" by simp
  then show "(of_char c :: nat) div 16 < 16" by (rule less_mult_imp_div_less)
  show "(of_char c :: nat) mod 16 < 16" by simp
qed

lemma createFromHexString_hex_byte:
  "createFromHexString (hex_byte c @ s) = c # createFromHexString s"
  by (simp add: hex_byte_def hex_value_hex_digit nibbles)

lemma createFromHexString_toHexString: "createFromHexString (toHexString b) = b"
  by (induction b) (simp_all add: toHexString_def createFromHexString_hex_byte)

lemma list_all_is_hex_toHexString: "list_all is_hex (toHexString b)"
  by (induction b) (simp_all add: toHexString_def hex_byte_def is_hex_hex_digit nibbles)

lemma length_toHexString: "length (toHexString b) = 2 * length b"
  by (induction b) (simp_all add: toHexString_def hex_byte_def)

lemma ObjectID_toHexString: "length b = 12 \<Longrightarrow> ObjectID (toHexString b) = Inr b"
  by (simp add: ObjectID_def length_toHexString list_all_is_hex_toHexString
      createFromHexString_toHexString)

lemma show_nat_small: "n < 10 \<Longrightarrow> show_nat n = [hex_digit n]"
  by (subst show_nat.simps) simp

lemma show_nat_large:
  "\<not> n < 10 \<Longrightarrow> show_nat n = show_nat (n div 10) @ [hex_digit (n mod 10)]"
  by (subst show_nat.simps) simp

lemma show_nat_not_Nil: "show_nat n \<noteq> []"
  by (cases "n < 10") (simp_all add: show_nat_small show_nat_large)

lemma show_nat_digits: "c \<in> set (show_nat n) \<Longrightarrow> is_digit c"
proof (induction n arbitrary: c rule: show_nat.induct)
  case (1 n)
  show ?case
  proof (cases "n < 10")
    case True
    with "1.prems" show ?thesis by (simp add: show_nat_small is_digit_hex_digit)
  next
    case False
    have "is_digit (hex_digit (n mod 10))" by (rule is_digit_hex_digit) simp
    with False "1.prems" "1.IH" show ?thesis by (auto simp: show_nat_large)
  qed
qed

lemma foldl_show_nat:
  "foldl (\<lambda>a c. a * 10 + ((of_char c :: nat) - 48)) a (show_nat n) =
     a * 10 ^ length (show_nat n) + n"
proof (induction n arbitrary: a rule: show_nat.induct)
  case (1 n)
  show ?case
  proof (cases "n < 10")
    case True
    then show ?thesis by (simp add: show_nat_small of_char_hex_digit)
  next
    case False
    have m: "n mod 10 < 10" by simp
    from False "1.IH"[of a] show ?thesis
      by (simp add: show_nat_large of_char_hex_digit[OF m] algebra_simps)
  qed
qed

lemma read_nat_show_nat: "read_nat (show_nat n) = n"
  by (simp add: read_nat_def foldl_show_nat)

lemma hd_show_nat: "0 < n \<Longrightarrow> hd (show_nat n) \<noteq> CHR ''0''"
proof (induction n rule: show_nat.induct)
  case (1 n)
  show ?case
  proof (cases "n < 10")
    case True
    with "1.prems" have "(of_char (hex_digit n) :: nat) = 48 + n" "n \<noteq> 0"
      by (simp_all add: of_char_hex_digit)
    then have "hex_digit n \<noteq> CHR ''0''" by auto
    with True show ?thesis by (simp add: show_nat_small)
  next
    case False
    then have "0 < n div 10" by simp
    with False "1.IH" have "hd (show_nat (n div 10)) \<noteq> CHR ''0''" by simp
    with False show ?thesis by (simp add: show_nat_large show_nat_not_Nil)
  qed
qed

lemma length_show_nat: "1 < length (show_nat n) \<Longrightarrow> 0 < n"
  by (cases "n < 10") (simp_all add: show_nat_small)

lemma parse_digits_show_nat:
  assumes "at_boundary rest"
  shows "parse_digits (show_nat n @ rest) = Some (n, rest)"
proof -
  have all: "\<And>c. c \<in> set (show_nat n) \<Longrightarrow> is_digit c" by (rule show_nat_digits)
  from assms have tw: "takeWhile is_digit rest = []" and dw: "dropWhile is_digit rest = rest"
    by (auto simp: at_boundary_def split: list.splits)
  have t: "takeWhile is_digit (show_nat n @ rest) = show_nat n"
    using all tw by (simp add: takeWhile_append2)
  have d: "dropWhile is_digit (show_nat n @ rest) = rest"
    using all dw by (simp add: dropWhile_append2)
  have z: "\<not> (1 < length (show_nat n) \<and> hd (show_nat n) = CHR ''0'')"
    using hd_show_nat length_show_nat by blast
  show ?thesis
    unfolding parse_digits_def t d using z by (simp add: Let_def show_nat_not_Nil read_nat_show_nat)
qed

lemma show_nat_Cons: "\<exists>c cs. show_nat n = c # cs \<and> is_digit c"
  using show_nat_not_Nil[of n] show_nat_digits[of _ n] by (cases "show_nat n") auto

lemma is_digit_facts:
  "is_digit c \<Longrightarrow> c \<noteq> CHR ''n'' \<and> c \<noteq> CHR ''t'' \<and> c \<noteq> CHR ''f'' \<and> c \<noteq> CHR 0x22 \<and> c \<noteq> CHR ''-''
     \<and> c \<noteq> CHR '']'' \<and> c \<noteq> CHR ''}''"
  by (auto simp: is_digit_def)

lemma parse_value_show_int:
  assumes "at_boundary rest"
  shows "parse_value (Suc m) (show_int n @ rest) = Some (JNum n, rest)"
proof (cases "n < 0")
  case True
  then show ?thesis
    using parse_digits_show_nat[OF assms, of "nat (- n)"] by (simp add: show_int_def)
next
  case False
  obtain c cs where s: "show_nat (nat n) = c # cs" and c: "is_digit c"
    using show_nat_Cons by blast
  from parse_digits_show_nat[OF assms, of "nat n"] s
  have "parse_digits (c # cs @ rest) = Some (nat n, rest)" by simp
  with False s c is_digit_facts[OF c] show ?thesis by (simp add: show_int_def)
qed

lemma parse_chars_quote_char:
  "parse_chars (quote_char c @ s) = cons_char c (parse_chars s)"
proof -
  consider "c = CHR 0x22" | "c = CHR 0x5C" | "c = CHR 0x08" | "c = CHR 0x0C" | "c = CHR 0x0A"
    | "c = CHR 0x0D" | "c = CHR 0x09"
    | "c \<noteq> CHR 0x22" "c \<noteq> CHR 0x5C" "c \<noteq> CHR 0x08" "c \<noteq> CHR 0x0C" "c \<noteq> CHR 0x0A"
      "c \<noteq> CHR 0x0D" "c \<noteq> CHR 0x09" "(of_char c :: nat) < 32"
    | "c \<noteq> CHR 0x22" "c \<noteq> CHR 0x5C" "\<not> (of_char c :: nat) < 32"
    by blast
  then show ?thesis
  proof cases
    case 8
    have d: "(of_char c :: nat) div 16 < 16" and m: "(of_char c :: nat) mod 16 < 16"
      by (rule nibbles)+
    have z: "hex_value (CHR ''0'') = Some 0" by (simp add: hex_value_def)
    have "hex4 (CHR ''0'') (CHR ''0'') (hex_digit ((of_char c :: nat) div 16))
            (hex_digit ((of_char c :: nat) mod 16)) = Some c"
      by (simp add: hex4_def z hex_value_hex_digit[OF d] hex_value_hex_digit[OF m])
    with 8 show ?thesis by (simp add: quote_char_def hex_byte_def)
  next
    case 9
    then have "quote_char c = [c]" by (auto simp: quote_char_def)
    with 9 show ?thesis by simp
  qed (simp_all add: quote_char_def unescape_def)
qed

lemma parse_chars_quoted:
  "parse_chars (concat (map quote_char s) @ CHR 0x22 # rest) = Some (s, rest)"
  by (induction s) (simp_all add: parse_chars_quote_char cons_char_def)

lemma parse_value_quote:
  "parse_value (Suc m) (quote s @ rest) = Some (JStr s, rest)"
  by (simp add: quote_def parse_chars_quoted)

lemma at_boundary_simps [simp]:
  "at_boundary []" "at_boundary (CHR '']'' # r)" "at_boundary (CHR ''}'' # r)"
  "at_boundary (CHR '','' # r)"
  by (simp_all add: at_boundary_def is_digit_def)

lemma not_digit_bracket [simp]: "\<not> is_digit (CHR ''['')" "\<not> is_digit (CHR ''{'')"
  by (simp_all add: is_digit_def)

lemma JSON_stringify_first:
  "\<exists>c cs. JSON_stringify v = c # cs \<and> c \<noteq> CHR '']''"
proof (cases v)
  case (JNum n)
  obtain c cs where "show_nat (nat n) = c # cs" "is_digit c" using show_nat_Cons by blast
  with JNum show ?thesis using is_digit_facts[of c] by (simp add: show_int_def)
qed (simp_all add: quote_def)

lemma stringify_elements_first:
  "vs \<noteq> [] \<Longrightarrow> \<exists>c cs. stringify_elements vs = c # cs \<and> c \<noteq> CHR '']''"
proof (cases vs)
  case Nil
  assume "vs \<noteq> []" with Nil show ?thesis by simp
next
  case (Cons v ws)
  obtain c cs where "JSON_stringify v = c # cs" "c \<noteq> CHR '']''"
    using JSON_stringify_first by blast
  with Cons show ?thesis by (cases ws) simp_all
qed

lemma stringify_members_first:
  "ms \<noteq> [] \<Longrightarrow> \<exists>cs. stringify_members ms = CHR 0x22 # cs"
proof (cases ms)
  case Nil
  assume "ms \<noteq> []" with Nil show ?thesis by simp
next
  case (Cons kv ws)
  then show ?thesis by (cases kv; cases ws) (simp_all add: quote_def)
qed

lemma parse_members_quote:
  "parse_members (Suc m) (quote k @ CHR '':'' # s) =
     (case parse_value m s of
        None \<Rightarrow> None
      | Some (v, r2) \<Rightarrow>
          (case r2 of
             [] \<Rightarrow> None
           | c2 # r3 \<Rightarrow>
               if c2 = CHR '','' then
                 map_option (\<lambda>(ms, t). ((k, v) # ms, t)) (parse_members m r3)
               else if c2 = CHR ''}'' then Some ([(k, v)], r3)
               else None))"
  by (simp add: quote_def parse_chars_quoted)

lemma parse_stringify:
  "length (JSON_stringify v) \<le> m \<Longrightarrow> at_boundary rest \<Longrightarrow>
     parse_value (Suc m) (JSON_stringify v @ rest) = Some (toJSON v, rest)"
  "vs \<noteq> [] \<Longrightarrow> length (stringify_elements vs) < m \<Longrightarrow>
     parse_elements (Suc m) (stringify_elements vs @ CHR '']'' # rest) = Some (toJSON_elements vs, rest)"
  "ms \<noteq> [] \<Longrightarrow> length (stringify_members ms) < m \<Longrightarrow>
     parse_members (Suc m) (stringify_members ms @ CHR ''}'' # rest) = Some (toJSON_members ms, rest)"
proof (induction v and vs and ms arbitrary: m rest and m rest and m rest
    rule: JSON_stringify_stringify_elements_stringify_members.induct)
  case 1
  then show ?case by (simp add: expect_def)
next
  case (2 b)
  then show ?case by (simp add: expect_def)
next
  case (3 n)
  then show ?case by (simp add: parse_value_show_int)
next
  case (4 s)
  then show ?case by (simp add: parse_value_quote)
next
  case (5 b)
  then show ?case by (simp add: parse_value_quote)
next
  case (6 vs)
  show ?case
  proof (cases "vs = []")
    case True
    then show ?thesis by simp
  next
    case False
    obtain c cs where f: "stringify_elements vs = c # cs" "c \<noteq> CHR '']''"
      using stringify_elements_first[OF False] by blast
    from "6.prems" obtain m' where m: "m = Suc m'" "length (stringify_elements vs) < m'"
      by (cases m) auto
    have "parse_elements (Suc m') (stringify_elements vs @ CHR '']'' # rest)
            = Some (toJSON_elements vs, rest)"
      by (rule "6.IH"[OF False m(2)])
    with f m show ?thesis by simp
  qed
next
  case (7 kvs)
  show ?case
  proof (cases "kvs = []")
    case True
    then show ?thesis by simp
  next
    case False
    obtain cs where f: "stringify_members kvs = CHR 0x22 # cs"
      using stringify_members_first[OF False] by blast
    from "7.prems" obtain m' where m: "m = Suc m'" "length (stringify_members kvs) < m'"
      by (cases m) auto
    have "parse_members (Suc m') (stringify_members kvs @ CHR ''}'' # rest)
            = Some (toJSON_members kvs, rest)"
      by (rule "7.IH"[OF False m(2)])
    with f m show ?thesis by simp
  qed
next
  case 8
  then show ?case by simp
next
  case (9 v)
  from "9.prems" obtain m' where m: "m = Suc m'" "length (JSON_stringify v) \<le> m'"
    by (cases m) auto
  have "parse_value (Suc m') (JSON_stringify v @ CHR '']'' # rest) = Some (toJSON v, CHR '']'' # rest)"
    by (rule "9.IH"[OF m(2)]) simp
  with m show ?case by simp
next
  case (10 v w vs)
  from "10.prems" obtain m' where m: "m = Suc m'" "length (JSON_stringify v) \<le> m'"
    "length (stringify_elements (w # vs)) < m'"
    by (cases m) auto
  have a: "parse_value (Suc m') (JSON_stringify v @ CHR '','' # stringify_elements (w # vs) @ CHR '']'' # rest)
          = Some (toJSON v, CHR '','' # stringify_elements (w # vs) @ CHR '']'' # rest)"
    by (rule "10.IH"(1)[OF m(2)]) simp
  have b: "parse_elements (Suc m') (stringify_elements (w # vs) @ CHR '']'' # rest)
          = Some (toJSON_elements (w # vs), rest)"
    by (rule "10.IH"(2)[OF _ m(3)]) simp
  from a b m show ?case by simp
next
  case 11
  then show ?case by simp
next
  case (12 k v)
  from "12.prems" obtain m' where m: "m = Suc m'" "length (JSON_stringify v) \<le> m'"
    by (cases m) auto
  have "parse_value (Suc m') (JSON_stringify v @ CHR ''}'' # rest) = Some (toJSON v, CHR ''}'' # rest)"
    by (rule "12.IH"[OF m(2)]) simp
  with m show ?case by (simp add: parse_members_quote)
next
  case (13 k v x xs)
  from "13.prems" obtain m' where m: "m = Suc m'" "length (JSON_stringify v) \<le> m'"
    "length (stringify_members (x # xs)) < m'"
    by (cases m) auto
  have a: "parse_value (Suc m') (JSON_stringify v @ CHR '','' # stringify_members (x # xs) @ CHR ''}'' # rest)
          = Some (toJSON v, CHR '','' # stringify_members (x # xs) @ CHR ''}'' # rest)"
    by (rule "13.IH"(1)[OF m(2)]) simp
  have b: "parse_members (Suc m') (stringify_members (x # xs) @ CHR ''}'' # rest)
          = Some (toJSON_members (x # xs), rest)"
    by (rule "13.IH"(2)[OF _ m(3)]) simp
  from a b m show ?case by (simp add: parse_members_quote)
qed

theorem JSON_parse_stringify: "JSON_parse (JSON_stringify v) = Some (toJSON v)"
  using parse_stringify(1)[of v "length (JSON_stringify v)" "[]"]
  by (simp add: JSON_parse_def)

section \<open>The driver's answers\<close>

lemma field_of_simps [simp]:
  "field_of d ''_id'' = Some (JOid (obj_id d))"
  "field_of d ''itemDescription'' = Some (JStr (itemDescription d))"
  "field_of d ''upc'' = Some (JStr (upc d))"
  by (simp_all add: field_of_def document_of_def)

lemma first_of_filter:
  "(case filter P xs of [] \<Rightarrow> Inr None | d # ds \<Rightarrow> Inr (Some d)) = (Inr (List.find P xs) :: 'e + 'a option)"
  by (induction xs) simp_all

lemma findOne_Equals:
  "failure database = None \<Longrightarrow>
     findOne (collection database name) (k, Equals v) =
       Inr (List.find (\<lambda>d. field_of d k = Some v) (collections database name))"
  by (simp add: findOne_def select_def collection_def first_of_filter)

lemma findOne_failure:
  "failure database = Some err \<Longrightarrow> findOne (collection database name) q = Inl err"
  by (simp add: findOne_def select_def collection_def)

lemma find_toArray_failure:
  "failure database = Some err \<Longrightarrow> find_toArray (collection database name) q = Inl err"
  by (simp add: find_toArray_def select_def collection_def)

lemma find_toArray_Regex:
  "failure database = None \<Longrightarrow>
     find_toArray (collection database name) (k, Regex pattern options) =
       (case regex_engine database pattern options of
          Inl err \<Rightarrow> Inl err
        | Inr matcher \<Rightarrow> Inr (filter (satisfies matcher k) (collections database name)))"
  by (simp add: find_toArray_def select_def collection_def split: sum.split)

lemma find_distinct_key:
  "d \<in> set xs \<Longrightarrow> distinct (map f xs) \<Longrightarrow> List.find (\<lambda>x. f x = f d) xs = Some d"
  by (induction xs) (auto simp: image_iff)

lemma module_loaded_db: "db module_loaded = None"
  by (simp add: module_loaded_def getDbConnection_def logger_info_def)

lemma failed_connection_db: "db (dbConnect_settled (Inl err) module_loaded) = None"
  by (simp add: dbConnect_settled_def logger_error_def module_loaded_db)

lemma ready_db: "db ready = Some catalog"
  by (simp add: ready_def dbConnect_settled_def logger_info_def)

lemma catalog_simps:
  "failure catalog = None" "collections catalog ''items'' = [widget, soap]"
  "regex_engine catalog = pcre_fragment"
  by (simp_all add: catalog_def)

section \<open>The lookups\<close>

text \<open>
  Claim C1. With the handle initialised and the store answering, \<open>findByUpc code\<close>
  asks for the first document whose \<^verbatim>\<open>upc\<close> field equals the string form of the code.
  When no stored item has exactly that UPC (a stored UPC that merely contains it does
  not count) the lookup resolves with the text \<^verbatim>\<open>null\<close> and status 404; when one has,
  it resolves with the serialization of such an item and status 200. Either way the
  promise is resolved, not rejected.
\<close>

theorem findByUpc_exact:
  assumes "db w = Some database" and "failure database = None"
  shows "((\<forall>d \<in> set (collections database ''items''). upc d \<noteq> js_String code) \<longrightarrow>
            findByUpc code w = (Resolved \<lparr>data = ''null'', statusCode = 404\<rparr>, w))
       \<and> ((\<exists>d \<in> set (collections database ''items''). upc d = js_String code) \<longrightarrow>
            (\<exists>d \<in> set (collections database ''items''). upc d = js_String code
               \<and> findByUpc code w =
                   (Resolved \<lparr>data = JSON_stringify (document_of d), statusCode = 200\<rparr>, w)))"
proof -
  let ?hit = "List.find (\<lambda>d. upc d = js_String code) (collections database ''items'')"
  have run: "findByUpc code w =
      (Resolved \<lparr>data = JSON_stringify (case ?hit of None \<Rightarrow> JNull | Some d \<Rightarrow> document_of d),
                 statusCode = (if ?hit \<noteq> None then 200 else 404)\<rparr>, w)"
    using assms by (simp add: findByUpc_def findOne_Equals)
  show ?thesis
  proof (cases ?hit)
    case None
    then have "\<forall>d \<in> set (collections database ''items''). upc d \<noteq> js_String code"
      by (simp add: find_None_iff)
    with None run show ?thesis by auto
  next
    case (Some d)
    then have "d \<in> set (collections database ''items'')" "upc d = js_String code"
      by (auto simp: find_Some_iff)
    with Some run show ?thesis by auto
  qed
qed

theorem findByUpc_exact_witness:
  "db ready = Some catalog \<and> failure catalog = None
   \<and> prefix ''0001'' (upc widget)
   \<and> findByUpc (PStr ''0001'') ready = (Resolved \<lparr>data = ''null'', statusCode = 404\<rparr>, ready)
   \<and> findByUpc (PStr ''00012345'') ready =
       (Resolved \<lparr>data = JSON_stringify (document_of widget), statusCode = 200\<rparr>, ready)"
proof -
  have miss: "\<forall>d \<in> set (collections catalog ''items''). upc d \<noteq> js_String (PStr ''0001'')"
    by (simp add: catalog_simps widget_def soap_def)
  have hit: "\<exists>d \<in> set (collections catalog ''items''). upc d = js_String (PStr ''00012345'')"
    by (simp add: catalog_simps widget_def soap_def)
  from findByUpc_exact[OF ready_db catalog_simps(1), of "PStr ''0001''"] miss
  have a: "findByUpc (PStr ''0001'') ready = (Resolved \<lparr>data = ''null'', statusCode = 404\<rparr>, ready)"
    by blast
  from findByUpc_exact[OF ready_db catalog_simps(1), of "PStr ''00012345''"] hit
  obtain d where "d \<in> set (collections catalog ''items'')" "upc d = js_String (PStr ''00012345'')"
    "findByUpc (PStr ''00012345'') ready =
       (Resolved \<lparr>data = JSON_stringify (document_of d), statusCode = 200\<rparr>, ready)"
    by blast
  then have b: "findByUpc (PStr ''00012345'') ready =
       (Resolved \<lparr>data = JSON_stringify (document_of widget), statusCode = 200\<rparr>, ready)"
    by (auto simp: catalog_simps widget_def soap_def)
  show ?thesis using a b by (simp add: ready_db catalog_simps widget_def)
qed

text \<open>
  Claim C7. While the module variable \<^verbatim>\<open>db\<close> is still undefined, each of the three
  lookups returns a promise rejected with the error of reading \<^verbatim>\<open>collection\<close> of
  \<^verbatim>\<open>undefined\<close>: the executor throws and the promise carries the thrown value. The
  module state is left as it was. The state right after the module is loaded is such
  a state.
\<close>

theorem uninitialised_handle_rejects:
  assumes "db w = None"
  shows "findById ident w = (Rejected (Error undefined_db), w)
       \<and> findByDescription partialDescription w = (Rejected (Error undefined_db), w)
       \<and> findByUpc code w = (Rejected (Error undefined_db), w)"
  using assms by (simp add: findById_def findByDescription_def findByUpc_def)

theorem uninitialised_handle_rejects_witness:
  "db module_loaded = None
   \<and> findById ''6162636465666768696a6b6c'' module_loaded = (Rejected (Error undefined_db), module_loaded)
   \<and> findByDescription ''widget'' module_loaded = (Rejected (Error undefined_db), module_loaded)
   \<and> findByUpc (PStr ''00012345'') module_loaded = (Rejected (Error undefined_db), module_loaded)"
  using uninitialised_handle_rejects[OF module_loaded_db] module_loaded_db by simp

text \<open>
  Claim C8. The three lookups only read: for every argument and every state, the
  store behind the handle (its collections, its failure state, its pattern engine) is
  the same after the lookup as before. The only thing a lookup adds to the module
  state is log lines.
\<close>

theorem lookups_read_only:
  "db (snd (findById ident w)) = db w
   \<and> db (snd (findByDescription partialDescription w)) = db w
   \<and> db (snd (findByUpc code w)) = db w
   \<and> (\<exists>lines. logged (snd (findById ident w)) = logged w @ lines)
   \<and> (\<exists>lines. logged (snd (findByDescription partialDescription w)) = logged w @ lines)
   \<and> (\<exists>lines. logged (snd (findByUpc code w)) = logged w @ lines)"
  by (simp add: findById_def findByDescription_def findByUpc_def logger_error_def Let_def
      split: option.split sum.split)

section \<open>Evaluating the example states\<close>

lemma compile_zebra:
  "pcre_fragment ''.*zebra.*'' ''i'' =
     Inr (search True [(AnyChar, Star), (Lit CHR ''z'', Once), (Lit CHR ''e'', Once), (Lit CHR ''b'', Once),
            (Lit CHR ''r'', Once), (Lit CHR ''a'', Once), (AnyChar, Star)])"
  by (simp add: pcre_fragment_def atom_of_def quantifier_def metacharacters_def)

lemma compile_widget:
  "pcre_fragment ''.*widget.*'' ''i'' =
     Inr (search True [(AnyChar, Star), (Lit CHR ''w'', Once), (Lit CHR ''i'', Once), (Lit CHR ''d'', Once),
            (Lit CHR ''g'', Once), (Lit CHR ''e'', Once), (Lit CHR ''t'', Once), (AnyChar, Star)])"
  by (simp add: pcre_fragment_def atom_of_def quantifier_def metacharacters_def)

lemma compile_plus:
  "pcre_fragment ''.*1+1.*'' ''i'' =
     Inr (search True [(AnyChar, Star), (Lit CHR ''1'', Plus), (Lit CHR ''1'', Once), (AnyChar, Star)])"
  by (simp add: pcre_fragment_def atom_of_def quantifier_def metacharacters_def)

lemma zebra_nowhere:
  "filter (satisfies (search True [(AnyChar, Star), (Lit CHR ''z'', Once), (Lit CHR ''e'', Once),
       (Lit CHR ''b'', Once), (Lit CHR ''r'', Once), (Lit CHR ''a'', Once), (AnyChar, Star)])
     ''itemDescription'') (collections catalog ''items'') = []"
  by code_simp

lemma widget_found:
  "filter (satisfies (search True [(AnyChar, Star), (Lit CHR ''w'', Once), (Lit CHR ''i'', Once),
       (Lit CHR ''d'', Once), (Lit CHR ''g'', Once), (Lit CHR ''e'', Once), (Lit CHR ''t'', Once),
       (AnyChar, Star)])
     ''itemDescription'') (collections catalog ''items'') = [widget]"
  by code_simp

lemma plus_nowhere:
  "filter (satisfies (search True [(AnyChar, Star), (Lit CHR ''1'', Plus), (Lit CHR ''1'', Once),
       (AnyChar, Star)])
     ''itemDescription'') (collections catalog ''items'') = []"
  by code_simp

section \<open>The lookups, continued\<close>

lemma ObjectID_999:
  "ObjectID ''999'' = Inl (TypeError
     ''Argument passed in must be a single String of 12 bytes or a string of 24 hex characters'')"
  by (simp add: ObjectID_def)

text \<open>
  Claim C2, as stated, at the identifier \<^verbatim>\<open>999\<close>: no stored item has it, the handle
  is initialised and the store answers, yet the promise is not rejected with a
  not-found message. The identifier is neither 24 hexadecimal digits nor 12 bytes, so
  the constructor of the object identifier throws inside the executor and the promise
  carries that error, whose text does not name the identifier.
\<close>

theorem findById_malformed_id:
  "filter (\<lambda>d. obj_id d = ''999'' \<or> toHexString (obj_id d) = ''999'') (collections catalog ''items'') = []
   \<and> findById ''999'' ready =
       (Rejected (Error (TypeError
          ''Argument passed in must be a single String of 12 bytes or a string of 24 hex characters'')),
        ready)
   \<and> (\<forall>msg. fst (findById ''999'' ready) \<noteq> Rejected (Message msg))
   \<and> \<not> sublist ''999''
         ''Argument passed in must be a single String of 12 bytes or a string of 24 hex characters''"
proof -
  have "\<not> sublist ''999''
         ''Argument passed in must be a single String of 12 bytes or a string of 24 hex characters''"
    by code_simp
  then show ?thesis
    by (simp add: findById_def ready_db ObjectID_999 catalog_simps widget_def soap_def
        toHexString_def hex_byte_def)
qed

text \<open>
  Claim C2, amended. For an identifier with no matching document, \<open>findById\<close> never
  resolves, whatever the state. When the handle is initialised, the identifier
  converts to the store's identifier type and the store answers the query, the
  promise is rejected with the message
  \<^verbatim>\<open>No document matching id: <id> could be found!\<close>, which contains the identifier,
  and the message is logged. When the handle is initialised and the identifier does
  not convert, the promise is rejected with the very error the constructor of the
  object identifier throws, and nothing is logged; an identifier does not convert
  exactly when it is neither 24 hexadecimal digits nor 12 characters long.
\<close>

theorem findById_not_found:
  assumes "\<forall>database key. db w = Some database \<and> ObjectID ident = Inr key \<longrightarrow>
             (\<forall>d \<in> set (collections database ''items''). obj_id d \<noteq> key)"
  shows "(\<forall>env. fst (findById ident w) \<noteq> Resolved env)
       \<and> (\<forall>database key. db w = Some database \<and> failure database = None \<and> ObjectID ident = Inr key \<longrightarrow>
            findById ident w =
              (Rejected (Message (''No document matching id: '' @ ident @ '' could be found!'')),
               logger_error (''No document matching id: '' @ ident @ '' could be found!'')
                 ''findById()'' w)
            \<and> sublist ident (''No document matching id: '' @ ident @ '' could be found!''))
       \<and> (\<forall>database thrown. db w = Some database \<and> ObjectID ident = Inl thrown \<longrightarrow>
            findById ident w = (Rejected (Error thrown), w))
       \<and> ((\<exists>thrown. ObjectID ident = Inl thrown) \<longleftrightarrow>
            \<not> (length ident = 24 \<and> list_all is_hex ident) \<and> length ident \<noteq> 12)"
proof (intro conjI allI impI)
  fix env
  show "fst (findById ident w) \<noteq> Resolved env"
  proof (cases "db w")
    case None
    then show ?thesis by (simp add: findById_def)
  next
    case (Some database)
    show ?thesis
    proof (cases "ObjectID ident")
      case (Inl thrown)
      with Some show ?thesis by (simp add: findById_def)
    next
      case (Inr key)
      with Some assms have none: "\<forall>d \<in> set (collections database ''items''). obj_id d \<noteq> key"
        by blast
      show ?thesis
      proof (cases "failure database")
        case None
        from none have "List.find (\<lambda>d. obj_id d = key) (collections database ''items'') = None"
          by (simp add: find_None_iff)
        with Some Inr None show ?thesis by (simp add: findById_def findOne_Equals Let_def)
      next
        case (Some err)
        with \<open>db w = Some database\<close> Inr show ?thesis
          by (simp add: findById_def findOne_failure)
      qed
    qed
  qed
next
  fix database key
  assume h: "db w = Some database \<and> failure database = None \<and> ObjectID ident = Inr key"
  with assms have "\<forall>d \<in> set (collections database ''items''). obj_id d \<noteq> key" by blast
  then have "List.find (\<lambda>d. obj_id d = key) (collections database ''items'') = None"
    by (simp add: find_None_iff)
  with h show "findById ident w =
      (Rejected (Message (''No document matching id: '' @ ident @ '' could be found!'')),
       logger_error (''No document matching id: '' @ ident @ '' could be found!'') ''findById()'' w)"
    by (simp add: findById_def findOne_Equals Let_def)
next
  fix database key
  show "sublist ident (''No document matching id: '' @ ident @ '' could be found!'')"
    by (rule sublist_appendI)
next
  fix database thrown
  assume "db w = Some database \<and> ObjectID ident = Inl thrown"
  then show "findById ident w = (Rejected (Error thrown), w)"
    by (simp add: findById_def)
next
  show "(\<exists>thrown. ObjectID ident = Inl thrown) \<longleftrightarrow>
          \<not> (length ident = 24 \<and> list_all is_hex ident) \<and> length ident \<noteq> 12"
    by (auto simp: ObjectID_def)
qed

lemma ObjectID_absent: "ObjectID ''6162636465666768696a6b6d'' = Inr ''abcdefghijkm''"
  using ObjectID_toHexString[of "''abcdefghijkm''"]
  by (simp add: toHexString_def hex_byte_def hex_digit_def)

theorem findById_not_found_witness:
  "db ready = Some catalog \<and> failure catalog = None
   \<and> ObjectID ''6162636465666768696a6b6d'' = Inr ''abcdefghijkm''
   \<and> list_all (\<lambda>d. obj_id d \<noteq> ''abcdefghijkm'') (collections catalog ''items'')
   \<and> findById ''6162636465666768696a6b6d'' ready =
       (Rejected (Message ''No document matching id: 6162636465666768696a6b6d could be found!''),
        logger_error ''No document matching id: 6162636465666768696a6b6d could be found!''
          ''findById()'' ready)
   \<and> ObjectID ''999'' = Inl (TypeError
         ''Argument passed in must be a single String of 12 bytes or a string of 24 hex characters'')
   \<and> findById ''999'' ready =
       (Rejected (Error (TypeError
          ''Argument passed in must be a single String of 12 bytes or a string of 24 hex characters'')),
        ready)"
proof -
  have none: "\<forall>database key. db ready = Some database
                \<and> ObjectID ''6162636465666768696a6b6d'' = Inr key \<longrightarrow>
             (\<forall>d \<in> set (collections database ''items''). obj_id d \<noteq> key)"
    by (simp add: ready_db ObjectID_absent catalog_simps widget_def soap_def)
  from findById_not_found[OF none] ready_db catalog_simps(1) ObjectID_absent
  have a: "findById ''6162636465666768696a6b6d'' ready =
       (Rejected (Message (''No document matching id: '' @ ''6162636465666768696a6b6d''
                    @ '' could be found!'')),
        logger_error (''No document matching id: '' @ ''6162636465666768696a6b6d''
                    @ '' could be found!'')
          ''findById()'' ready)"
    by blast
  have none': "\<forall>database key. db ready = Some database \<and> ObjectID ''999'' = Inr key \<longrightarrow>
             (\<forall>d \<in> set (collections database ''items''). obj_id d \<noteq> key)"
    by (simp add: ObjectID_999)
  from findById_not_found[OF none'] ready_db ObjectID_999
  have b: "findById ''999'' ready =
       (Rejected (Error (TypeError
          ''Argument passed in must be a single String of 12 bytes or a string of 24 hex characters'')),
        ready)"
    by blast
  have c: "list_all (\<lambda>d. obj_id d \<noteq> ''abcdefghijkm'') (collections catalog ''items'')"
    by (simp add: catalog_simps widget_def soap_def)
  from a have a': "findById ''6162636465666768696a6b6d'' ready =
       (Rejected (Message ''No document matching id: 6162636465666768696a6b6d could be found!''),
        logger_error ''No document matching id: 6162636465666768696a6b6d could be found!''
          ''findById()'' ready)"
    by simp
  from a' b c ready_db catalog_simps(1) ObjectID_absent ObjectID_999 show ?thesis
    by (intro conjI)
qed

lemma map_fst_toJSON_members: "map fst (toJSON_members ms) = map fst ms"
  by (induction ms) auto

lemma property_document:
  assumes "valid_item d"
  shows "property (toJSON (document_of d)) ''_id'' = Some (JStr (toHexString (obj_id d)))"
proof -
  from assms have "''_id'' \<notin> set (map fst (extra d))"
    by (simp add: valid_item_def)
  then have "''_id'' \<notin> fst ` set (rev (toJSON_members (extra d)))"
    using map_fst_toJSON_members[of "extra d"] by (metis list.set_map set_rev)
  then have "map_of (rev (toJSON_members (extra d))) ''_id'' = None"
    by (simp add: map_of_eq_None_iff)
  then show ?thesis
    by (simp add: property_def document_of_def map_add_def)
qed

text \<open>
  Claim C3. Let the handle be initialised and the store answer, let the identifiers of
  the stored items be distinct, and let \<open>d\<close> be a valid stored item. Then \<open>findById\<close>
  at the hexadecimal form of the identifier of \<open>d\<close> resolves with status 200 and the
  JSON text of \<open>d\<close>; the data is a string, and reading it back gives a value whose
  \<^verbatim>\<open>_id\<close> is the identifier asked for.
\<close>

theorem findById_found:
  assumes "db w = Some database" and "failure database = None"
    and "d \<in> set (collections database ''items'')" and "valid_item d"
    and "distinct (map obj_id (collections database ''items''))"
  shows "findById (toHexString (obj_id d)) w =
           (Resolved \<lparr>data = JSON_stringify (document_of d), statusCode = 200\<rparr>, w)
       \<and> (\<exists>v. JSON_parse (JSON_stringify (document_of d)) = Some v
              \<and> property v ''_id'' = Some (JStr (toHexString (obj_id d))))"
proof
  from assms(4) have "ObjectID (toHexString (obj_id d)) = Inr (obj_id d)"
    by (simp add: valid_item_def ObjectID_toHexString)
  moreover have "List.find (\<lambda>x. obj_id x = obj_id d) (collections database ''items'') = Some d"
    using assms(3,5) by (rule find_distinct_key)
  ultimately show "findById (toHexString (obj_id d)) w =
           (Resolved \<lparr>data = JSON_stringify (document_of d), statusCode = 200\<rparr>, w)"
    using assms(1,2) by (simp add: findById_def findOne_Equals)
next
  show "\<exists>v. JSON_parse (JSON_stringify (document_of d)) = Some v
              \<and> property v ''_id'' = Some (JStr (toHexString (obj_id d)))"
    using property_document[OF assms(4)] by (simp add: JSON_parse_stringify)
qed

lemma widget_valid: "valid_item widget"
  by (simp add: valid_item_def widget_def)

lemma widget_hex: "toHexString (obj_id widget) = ''6162636465666768696a6b6c''"
  by (simp add: widget_def toHexString_def hex_byte_def hex_digit_def)

theorem findById_found_witness:
  "db ready = Some catalog \<and> failure catalog = None \<and> widget \<in> set (collections catalog ''items'')
   \<and> valid_item widget \<and> distinct (map obj_id (collections catalog ''items''))
   \<and> findById ''6162636465666768696a6b6c'' ready =
       (Resolved \<lparr>data = JSON_stringify (document_of widget), statusCode = 200\<rparr>, ready)
   \<and> (\<exists>v. JSON_parse (JSON_stringify (document_of widget)) = Some v
          \<and> property v ''_id'' = Some (JStr ''6162636465666768696a6b6c''))"
proof -
  have m: "widget \<in> set (collections catalog ''items'')" by (simp add: catalog_simps)
  have u: "distinct (map obj_id (collections catalog ''items''))"
    by (simp add: catalog_simps widget_def soap_def)
  from findById_found[OF ready_db catalog_simps(1) m widget_valid u]
  show ?thesis using m u by (simp add: ready_db catalog_simps(1) widget_valid widget_hex)
qed

lemma findByDescription_answered:
  assumes "db w = Some database" and "failure database = None"
    and "regex_engine database (''.*'' @ partialDescription @ ''.*'') ''i'' = Inr matcher"
  shows "findByDescription partialDescription w =
           (Resolved
              \<lparr>data = JSON_stringify (JArr (map document_of
                        (filter (satisfies matcher ''itemDescription'') (collections database ''items'')))),
               statusCode =
                 (if filter (satisfies matcher ''itemDescription'') (collections database ''items'') = []
                  then 404 else 200)\<rparr>, w)"
  using assms by (auto simp: findByDescription_def find_toArray_Regex Let_def)

lemma findByUpc_0001:
  "findByUpc (PStr ''0001'') ready = (Resolved \<lparr>data = ''null'', statusCode = 404\<rparr>, ready)"
  by (simp add: findByUpc_def ready_db findOne_Equals catalog_simps widget_def soap_def)

lemma compile_open_parenthesis:
  "pcre_fragment ''.*(.*'' ''i'' =
     Inl (MongoError ''Regular expression is invalid or outside the fragment'')"
  by (simp add: pcre_fragment_def atom_of_def quantifier_def metacharacters_def)

text \<open>
  Claim C5. With the handle initialised, the store answering and the pattern accepted
  by the store's engine, \<open>findByDescription\<close> resolves: the data is the JSON text of
  the array of selected documents and the status is 404 when that array is empty and
  200 otherwise. With no selected document the data is the text \<^verbatim>\<open>[]\<close>.
\<close>

theorem findByDescription_resolves:
  assumes "db w = Some database" and "failure database = None"
    and "regex_engine database (''.*'' @ partialDescription @ ''.*'') ''i'' = Inr matcher"
  shows "findByDescription partialDescription w =
           (Resolved
              \<lparr>data = JSON_stringify (JArr (map document_of
                        (filter (satisfies matcher ''itemDescription'') (collections database ''items'')))),
               statusCode =
                 (if filter (satisfies matcher ''itemDescription'') (collections database ''items'') = []
                  then 404 else 200)\<rparr>, w)
       \<and> (filter (satisfies matcher ''itemDescription'') (collections database ''items'') = [] \<longrightarrow>
            findByDescription partialDescription w = (Resolved \<lparr>data = ''[]'', statusCode = 404\<rparr>, w))"
  using findByDescription_answered[OF assms] by simp

theorem findByDescription_resolves_witness:
  "db ready = Some catalog \<and> failure catalog = None
   \<and> findByDescription ''zebra'' ready = (Resolved \<lparr>data = ''[]'', statusCode = 404\<rparr>, ready)
   \<and> findByDescription ''widget'' ready =
       (Resolved \<lparr>data = JSON_stringify (JArr [document_of widget]), statusCode = 200\<rparr>, ready)"
proof -
  have z: "regex_engine catalog (''.*'' @ ''zebra'' @ ''.*'') ''i'' =
     Inr (search True [(AnyChar, Star), (Lit CHR ''z'', Once), (Lit CHR ''e'', Once), (Lit CHR ''b'', Once),
            (Lit CHR ''r'', Once), (Lit CHR ''a'', Once), (AnyChar, Star)])"
    using compile_zebra by (simp add: catalog_simps)
  have w: "regex_engine catalog (''.*'' @ ''widget'' @ ''.*'') ''i'' =
     Inr (search True [(AnyChar, Star), (Lit CHR ''w'', Once), (Lit CHR ''i'', Once), (Lit CHR ''d'', Once),
            (Lit CHR ''g'', Once), (Lit CHR ''e'', Once), (Lit CHR ''t'', Once), (AnyChar, Star)])"
    using compile_widget by (simp add: catalog_simps)
  show ?thesis
    using findByDescription_resolves[OF ready_db catalog_simps(1) z]
      findByDescription_resolves[OF ready_db catalog_simps(1) w]
    by (simp add: ready_db catalog_simps(1) zebra_nowhere widget_found)
qed

text \<open>
  Claim C6. With the handle initialised, a failure the store reports reaches the
  caller as it is: when the store answers every request with \<open>err\<close>, each lookup that
  gets as far as asking the store is rejected with \<open>err\<close> itself, and when the pattern
  engine refuses the search pattern with \<open>err\<close>, \<open>findByDescription\<close> is rejected with
  \<open>err\<close>. Each lookup asks the store once and returns what that request gave.
\<close>

theorem store_failure_propagates:
  assumes "db w = Some database"
  shows "(failure database = Some err \<longrightarrow>
            fst (findByDescription partialDescription w) = Rejected (Error err)
          \<and> fst (findByUpc code w) = Rejected (Error err)
          \<and> (\<forall>key. ObjectID ident = Inr key \<longrightarrow> fst (findById ident w) = Rejected (Error err)))
       \<and> (failure database = None
            \<and> regex_engine database (''.*'' @ partialDescription @ ''.*'') ''i'' = Inl err \<longrightarrow>
            fst (findByDescription partialDescription w) = Rejected (Error err))"
  using assms
  by (auto simp: findById_def findByDescription_def findByUpc_def findOne_failure
      find_toArray_failure find_toArray_Regex Let_def)

lemma broken_db: "db broken = Some unreachable"
  by (simp add: broken_def dbConnect_settled_def logger_info_def)

lemma unreachable_failure: "failure unreachable = Some (MongoError ''connection closed'')"
  by (simp add: unreachable_def)

theorem store_failure_propagates_witness:
  "db broken = Some unreachable \<and> failure unreachable = Some (MongoError ''connection closed'')
   \<and> ObjectID ''6162636465666768696a6b6c'' = Inr ''abcdefghijkl''
   \<and> fst (findById ''6162636465666768696a6b6c'' broken) = Rejected (Error (MongoError ''connection closed''))
   \<and> fst (findByDescription ''widget'' broken) = Rejected (Error (MongoError ''connection closed''))
   \<and> fst (findByUpc (PStr ''00012345'') broken) = Rejected (Error (MongoError ''connection closed''))
   \<and> db ready = Some catalog \<and> failure catalog = None
   \<and> regex_engine catalog (''.*'' @ ''('' @ ''.*'') ''i'' =
         Inl (MongoError ''Regular expression is invalid or outside the fragment'')
   \<and> fst (findByDescription ''('' ready) =
         Rejected (Error (MongoError ''Regular expression is invalid or outside the fragment''))"
proof -
  have k: "ObjectID ''6162636465666768696a6b6c'' = Inr ''abcdefghijkl''"
    using ObjectID_toHexString[of "''abcdefghijkl''"]
    by (simp add: toHexString_def hex_byte_def hex_digit_def)
  have p: "regex_engine catalog (''.*'' @ ''('' @ ''.*'') ''i'' =
         Inl (MongoError ''Regular expression is invalid or outside the fragment'')"
    using compile_open_parenthesis by (simp add: catalog_simps)
  have a: "fst (findById ''6162636465666768696a6b6c'' broken) = Rejected (Error (MongoError ''connection closed''))
     \<and> fst (findByDescription ''widget'' broken) = Rejected (Error (MongoError ''connection closed''))
     \<and> fst (findByUpc (PStr ''00012345'') broken) = Rejected (Error (MongoError ''connection closed''))"
    using store_failure_propagates[OF broken_db, of "MongoError ''connection closed''"
        "''widget''" "PStr ''00012345''" "''6162636465666768696a6b6c''"] k
    by (simp add: unreachable_failure)
  have b: "fst (findByDescription ''('' ready) =
         Rejected (Error (MongoError ''Regular expression is invalid or outside the fragment''))"
    using store_failure_propagates[OF ready_db,
        of "MongoError ''Regular expression is invalid or outside the fragment''" "''(''"] p
    by (simp add: catalog_simps(1))
  from a b p k show ?thesis
    by (simp only: broken_db unreachable_failure ready_db catalog_simps(1) simp_thms)
qed

lemma findById_resolved:
  assumes "fst (findById ident w) = Resolved env"
  shows "\<exists>database key d. db w = Some database \<and> failure database = None
           \<and> ObjectID ident = Inr key
           \<and> List.find (\<lambda>d. obj_id d = key) (collections database ''items'') = Some d
           \<and> env = \<lparr>data = JSON_stringify (document_of d), statusCode = 200\<rparr>"
proof (cases "db w")
  case None
  with assms show ?thesis by (simp add: findById_def)
next
  case (Some database)
  show ?thesis
  proof (cases "ObjectID ident")
    case (Inl thrown)
    with Some assms show ?thesis by (simp add: findById_def)
  next
    case (Inr key)
    show ?thesis
    proof (cases "failure database")
      case (Some err)
      with \<open>db w = Some database\<close> Inr assms show ?thesis
        by (simp add: findById_def findOne_failure)
    next
      case None
      have one: "findOne (collection database ''items'') (''_id'', Equals (JOid key)) =
          Inr (List.find (\<lambda>d. obj_id d = key) (collections database ''items''))"
        using None by (simp add: findOne_Equals)
      show ?thesis
      proof (cases "List.find (\<lambda>d. obj_id d = key) (collections database ''items'')")
        case None
        with one \<open>db w = Some database\<close> Inr assms show ?thesis
          by (simp add: findById_def Let_def)
      next
        case (Some d)
        with one \<open>db w = Some database\<close> Inr assms
        have "env = \<lparr>data = JSON_stringify (document_of d), statusCode = 200\<rparr>"
          by (simp add: findById_def del: JSON_stringify.simps)
        with \<open>db w = Some database\<close> \<open>failure database = None\<close> Inr Some show ?thesis
          by blast
      qed
    qed
  qed
qed

lemma findByDescription_resolved:
  assumes "fst (findByDescription partialDescription w) = Resolved env"
  shows "\<exists>database matcher. db w = Some database \<and> failure database = None
           \<and> regex_engine database (''.*'' @ partialDescription @ ''.*'') ''i'' = Inr matcher
           \<and> env =
               \<lparr>data = JSON_stringify (JArr (map document_of
                         (filter (satisfies matcher ''itemDescription'') (collections database ''items'')))),
                statusCode =
                  (if filter (satisfies matcher ''itemDescription'') (collections database ''items'') = []
                   then 404 else 200)\<rparr>"
proof (cases "db w")
  case None
  with assms show ?thesis by (simp add: findByDescription_def)
next
  case (Some database)
  show ?thesis
  proof (cases "failure database")
    case (Some err)
    with \<open>db w = Some database\<close> assms show ?thesis
      by (simp add: findByDescription_def find_toArray_failure)
  next
    case None
    show ?thesis
    proof (cases "regex_engine database (''.*'' @ partialDescription @ ''.*'') ''i''")
      case (Inl err)
      with None \<open>db w = Some database\<close> assms show ?thesis
        by (simp add: findByDescription_def find_toArray_Regex)
    next
      case (Inr matcher)
      from findByDescription_answered[OF \<open>db w = Some database\<close> None Inr] assms
      have "env =
               \<lparr>data = JSON_stringify (JArr (map document_of
                         (filter (satisfies matcher ''itemDescription'') (collections database ''items'')))),
                statusCode =
                  (if filter (satisfies matcher ''itemDescription'') (collections database ''items'') = []
                   then 404 else 200)\<rparr>"
        by (simp only: fst_conv promise.inject)
      with \<open>db w = Some database\<close> None Inr show ?thesis by blast
    qed
  qed
qed

lemma findByUpc_answered:
  assumes "db w = Some database" and "failure database = None"
  shows "findByUpc code w =
      (Resolved
         \<lparr>data = JSON_stringify
                   (case List.find (\<lambda>d. upc d = js_String code) (collections database ''items'') of
                      None \<Rightarrow> JNull | Some d \<Rightarrow> document_of d),
          statusCode =
            (if List.find (\<lambda>d. upc d = js_String code) (collections database ''items'') = None
             then 404 else 200)\<rparr>, w)"
proof (cases "List.find (\<lambda>d. upc d = js_String code) (collections database ''items'')")
  case None
  with assms show ?thesis by (simp add: findByUpc_def findOne_Equals)
next
  case (Some d)
  with assms show ?thesis by (simp add: findByUpc_def findOne_Equals)
qed

lemma findByUpc_resolved:
  assumes "fst (findByUpc code w) = Resolved env"
  shows "\<exists>database. db w = Some database \<and> failure database = None
           \<and> env =
               \<lparr>data = JSON_stringify
                         (case List.find (\<lambda>d. upc d = js_String code) (collections database ''items'') of
                            None \<Rightarrow> JNull | Some d \<Rightarrow> document_of d),
                statusCode =
                  (if List.find (\<lambda>d. upc d = js_String code) (collections database ''items'') = None
                   then 404 else 200)\<rparr>"
proof (cases "db w")
  case None
  with assms show ?thesis by (simp add: findByUpc_def)
next
  case (Some database)
  show ?thesis
  proof (cases "failure database")
    case (Some err)
    with \<open>db w = Some database\<close> assms show ?thesis
      by (simp add: findByUpc_def findOne_failure)
  next
    case None
    from findByUpc_answered[OF \<open>db w = Some database\<close> None, of code] assms
    have "env =
               \<lparr>data = JSON_stringify
                         (case List.find (\<lambda>d. upc d = js_String code) (collections database ''items'') of
                            None \<Rightarrow> JNull | Some d \<Rightarrow> document_of d),
                statusCode =
                  (if List.find (\<lambda>d. upc d = js_String code) (collections database ''items'') = None
                   then 404 else 200)\<rparr>"
      by (simp only: fst_conv promise.inject)
    with \<open>db w = Some database\<close> None show ?thesis by blast
  qed
qed

lemma envelope_shape:
  assumes "env = \<lparr>data = JSON_stringify v, statusCode = c\<rparr>" and "c = 200 \<or> c = 404"
  shows "(statusCode env = 200 \<or> statusCode env = 404)
       \<and> (\<exists>v. data env = JSON_stringify v \<and> JSON_parse (data env) = Some (toJSON v))"
proof -
  have d: "data env = JSON_stringify v" and c: "statusCode env = c"
    by (simp_all only: assms(1) envelope.simps)
  have "JSON_parse (data env) = Some (toJSON v)"
    by (simp only: d JSON_parse_stringify)
  with d have "\<exists>v. data env = JSON_stringify v \<and> JSON_parse (data env) = Some (toJSON v)"
    by blast
  moreover from c assms(2) have "statusCode env = 200 \<or> statusCode env = 404"
    by (simp only:)
  ultimately show ?thesis by (rule conjI[rotated])
qed

lemma status_cases: "(if b then 404 else 200) = (200::int) \<or> (if b then 404 else 200) = (404::int)"
  by (cases b) (simp_all only: if_True if_False refl simp_thms)

lemma ObjectID_widget: "ObjectID ''6162636465666768696a6b6c'' = Inr ''abcdefghijkl''"
  using ObjectID_toHexString[of "''abcdefghijkl''"]
  by (simp add: toHexString_def hex_byte_def hex_digit_def)

lemma find_widget:
  "List.find (\<lambda>d. obj_id d = ''abcdefghijkl'') (collections catalog ''items'') = Some widget"
  by (simp add: catalog_simps widget_def)

lemma findById_widget:
  "fst (findById ''6162636465666768696a6b6c'' ready) =
     Resolved \<lparr>data = JSON_stringify (document_of widget), statusCode = 200\<rparr>"
  by (simp add: findById_def ready_db ObjectID_widget findOne_Equals catalog_simps(1) find_widget
      del: JSON_stringify.simps)

lemma findByDescription_widget:
  "fst (findByDescription ''widget'' ready) =
     Resolved \<lparr>data = JSON_stringify (JArr [document_of widget]), statusCode = 200\<rparr>"
proof -
  have w: "regex_engine catalog (''.*'' @ ''widget'' @ ''.*'') ''i'' =
     Inr (search True [(AnyChar, Star), (Lit CHR ''w'', Once), (Lit CHR ''i'', Once), (Lit CHR ''d'', Once),
            (Lit CHR ''g'', Once), (Lit CHR ''e'', Once), (Lit CHR ''t'', Once), (AnyChar, Star)])"
    using compile_widget by (simp add: catalog_simps)
  from findByDescription_answered[OF ready_db catalog_simps(1) w] show ?thesis
    by (simp add: widget_found del: JSON_stringify.simps)
qed

text \<open>
  Claim C10. Whenever one of the three lookups resolves, the handle is initialised,
  the store has answered, and the envelope is built from the result of the query:
  for \<open>findById\<close> the data is the JSON text of the first stored item with the
  identifier asked for and the status is 200; for \<open>findByDescription\<close> the data is the
  JSON text of the array of the items the engine's matcher selects and the status is
  200, or 404 when the array is empty; for \<open>findByUpc\<close> the data is the JSON text of the
  first stored item with that UPC and the status 200, or the text \<^verbatim>\<open>null\<close> and the
  status 404 when there is none. So the status is 200 or 404 and the data is JSON
  text: the reader accepts it and returns the value written.
\<close>

theorem resolved_envelope_shape:
  "(fst (findById ident w) = Resolved env \<longrightarrow>
      (\<exists>database key d. db w = Some database \<and> failure database = None
         \<and> ObjectID ident = Inr key
         \<and> List.find (\<lambda>d. obj_id d = key) (collections database ''items'') = Some d
         \<and> env = \<lparr>data = JSON_stringify (document_of d), statusCode = 200\<rparr>))
   \<and> (fst (findByDescription partialDescription w) = Resolved env \<longrightarrow>
      (\<exists>database matcher. db w = Some database \<and> failure database = None
         \<and> regex_engine database (''.*'' @ partialDescription @ ''.*'') ''i'' = Inr matcher
         \<and> env =
             \<lparr>data = JSON_stringify (JArr (map document_of
                       (filter (satisfies matcher ''itemDescription'') (collections database ''items'')))),
              statusCode =
                (if filter (satisfies matcher ''itemDescription'') (collections database ''items'') = []
                 then 404 else 200)\<rparr>))
   \<and> (fst (findByUpc code w) = Resolved env \<longrightarrow>
      (\<exists>database. db w = Some database \<and> failure database = None
         \<and> env =
             \<lparr>data = JSON_stringify
                       (case List.find (\<lambda>d. upc d = js_String code) (collections database ''items'') of
                          None \<Rightarrow> JNull | Some d \<Rightarrow> document_of d),
              statusCode =
                (if List.find (\<lambda>d. upc d = js_String code) (collections database ''items'') = None
                 then 404 else 200)\<rparr>))
   \<and> (fst (findById ident w) = Resolved env
         \<or> fst (findByDescription partialDescription w) = Resolved env
         \<or> fst (findByUpc code w) = Resolved env \<longrightarrow>
       (statusCode env = 200 \<or> statusCode env = 404)
       \<and> (\<exists>v. data env = JSON_stringify v \<and> JSON_parse (data env) = Some (toJSON v)))"
proof -
  have shape: "fst (findById ident w) = Resolved env
         \<or> fst (findByDescription partialDescription w) = Resolved env
         \<or> fst (findByUpc code w) = Resolved env \<longrightarrow>
       (statusCode env = 200 \<or> statusCode env = 404)
       \<and> (\<exists>v. data env = JSON_stringify v \<and> JSON_parse (data env) = Some (toJSON v))"
  proof
    assume "fst (findById ident w) = Resolved env
         \<or> fst (findByDescription partialDescription w) = Resolved env
         \<or> fst (findByUpc code w) = Resolved env"
    then consider
        d where "env = \<lparr>data = JSON_stringify (document_of d), statusCode = 200\<rparr>"
      | ds where "env = \<lparr>data = JSON_stringify (JArr (map document_of ds)),
                         statusCode = (if ds = [] then 404 else 200)\<rparr>"
      | doc where "env = \<lparr>data = JSON_stringify (case doc of None \<Rightarrow> JNull | Some d \<Rightarrow> document_of d),
                          statusCode = (if doc = None then 404 else 200)\<rparr>"
      using findById_resolved[of ident w env] findByDescription_resolved[of partialDescription w env]
        findByUpc_resolved[of code w env]
      by blast
    then show "(statusCode env = 200 \<or> statusCode env = 404)
         \<and> (\<exists>v. data env = JSON_stringify v \<and> JSON_parse (data env) = Some (toJSON v))"
    proof cases
      case 1
      then show ?thesis by (rule envelope_shape) (rule disjI1, rule refl)
    next
      case 2
      then show ?thesis by (rule envelope_shape) (rule status_cases)
    next
      case 3
      then show ?thesis by (rule envelope_shape) (rule status_cases)
    qed
  qed
  show ?thesis
  proof (rule conjI[OF _ conjI[OF _ conjI[OF _ shape]]])
    show "fst (findById ident w) = Resolved env \<longrightarrow>
      (\<exists>database key d. db w = Some database \<and> failure database = None
         \<and> ObjectID ident = Inr key
         \<and> List.find (\<lambda>d. obj_id d = key) (collections database ''items'') = Some d
         \<and> env = \<lparr>data = JSON_stringify (document_of d), statusCode = 200\<rparr>)"
      by (rule impI) (rule findById_resolved)
    show "fst (findByDescription partialDescription w) = Resolved env \<longrightarrow>
      (\<exists>database matcher. db w = Some database \<and> failure database = None
         \<and> regex_engine database (''.*'' @ partialDescription @ ''.*'') ''i'' = Inr matcher
         \<and> env =
             \<lparr>data = JSON_stringify (JArr (map document_of
                       (filter (satisfies matcher ''itemDescription'') (collections database ''items'')))),
              statusCode =
                (if filter (satisfies matcher ''itemDescription'') (collections database ''items'') = []
                 then 404 else 200)\<rparr>)"
      by (rule impI) (rule findByDescription_resolved)
    show "fst (findByUpc code w) = Resolved env \<longrightarrow>
      (\<exists>database. db w = Some database \<and> failure database = None
         \<and> env =
             \<lparr>data = JSON_stringify
                       (case List.find (\<lambda>d. upc d = js_String code) (collections database ''items'') of
                          None \<Rightarrow> JNull | Some d \<Rightarrow> document_of d),
              statusCode =
                (if List.find (\<lambda>d. upc d = js_String code) (collections database ''items'') = None
                 then 404 else 200)\<rparr>)"
      by (rule impI) (rule findByUpc_resolved)
  qed
qed

theorem resolved_envelope_shape_witness:
  "fst (findById ''6162636465666768696a6b6c'' ready) =
     Resolved \<lparr>data = JSON_stringify (document_of widget), statusCode = 200\<rparr>
   \<and> (\<exists>database key d. db ready = Some database \<and> failure database = None
         \<and> ObjectID ''6162636465666768696a6b6c'' = Inr key
         \<and> List.find (\<lambda>d. obj_id d = key) (collections database ''items'') = Some d
         \<and> \<lparr>data = JSON_stringify (document_of widget), statusCode = 200\<rparr>
             = \<lparr>data = JSON_stringify (document_of d), statusCode = 200\<rparr>)
   \<and> fst (findByDescription ''widget'' ready) =
       Resolved \<lparr>data = JSON_stringify (JArr [document_of widget]), statusCode = 200\<rparr>
   \<and> (\<exists>database matcher. db ready = Some database \<and> failure database = None
         \<and> regex_engine database (''.*'' @ ''widget'' @ ''.*'') ''i'' = Inr matcher
         \<and> \<lparr>data = JSON_stringify (JArr [document_of widget]), statusCode = 200\<rparr> =
             \<lparr>data = JSON_stringify (JArr (map document_of
                       (filter (satisfies matcher ''itemDescription'') (collections database ''items'')))),
              statusCode =
                (if filter (satisfies matcher ''itemDescription'') (collections database ''items'') = []
                 then 404 else 200)\<rparr>)
   \<and> fst (findByUpc (PStr ''0001'') ready) = Resolved \<lparr>data = ''null'', statusCode = 404\<rparr>
   \<and> (\<exists>database. db ready = Some database \<and> failure database = None
         \<and> \<lparr>data = ''null'', statusCode = 404\<rparr> =
             \<lparr>data = JSON_stringify
                       (case List.find (\<lambda>d. upc d = js_String (PStr ''0001'')) (collections database ''items'') of
                          None \<Rightarrow> JNull | Some d \<Rightarrow> document_of d),
              statusCode =
                (if List.find (\<lambda>d. upc d = js_String (PStr ''0001'')) (collections database ''items'') = None
                 then 404 else 200)\<rparr>)
   \<and> (\<exists>v. data \<lparr>data = JSON_stringify (document_of widget), statusCode = 200\<rparr> = JSON_stringify v
          \<and> JSON_parse (data \<lparr>data = JSON_stringify (document_of widget), statusCode = 200\<rparr>)
              = Some (toJSON v))"
proof -
  have r1: "fst (findById ''6162636465666768696a6b6c'' ready) =
     Resolved \<lparr>data = JSON_stringify (document_of widget), statusCode = 200\<rparr>"
    by (rule findById_widget)
  have r2: "fst (findByDescription ''widget'' ready) =
       Resolved \<lparr>data = JSON_stringify (JArr [document_of widget]), statusCode = 200\<rparr>"
    by (rule findByDescription_widget)
  have r3: "fst (findByUpc (PStr ''0001'') ready) = Resolved \<lparr>data = ''null'', statusCode = 404\<rparr>"
    using findByUpc_0001 by simp
  note t1 = resolved_envelope_shape[of "''6162636465666768696a6b6c''" ready
      "\<lparr>data = JSON_stringify (document_of widget), statusCode = 200\<rparr>" "''widget''" "PStr ''0001''"]
  note t2 = resolved_envelope_shape[of "''6162636465666768696a6b6c''" ready
      "\<lparr>data = JSON_stringify (JArr [document_of widget]), statusCode = 200\<rparr>" "''widget''" "PStr ''0001''"]
  note t3 = resolved_envelope_shape[of "''6162636465666768696a6b6c''" ready
      "\<lparr>data = ''null'', statusCode = 404\<rparr>" "''widget''" "PStr ''0001''"]
  have a: "\<exists>database key d. db ready = Some database \<and> failure database = None
         \<and> ObjectID ''6162636465666768696a6b6c'' = Inr key
         \<and> List.find (\<lambda>d. obj_id d = key) (collections database ''items'') = Some d
         \<and> \<lparr>data = JSON_stringify (document_of widget), statusCode = 200\<rparr>
             = \<lparr>data = JSON_stringify (document_of d), statusCode = 200\<rparr>"
    by (rule mp[OF conjunct1[OF t1] r1])
  have b: "\<exists>database matcher. db ready = Some database \<and> failure database = None
         \<and> regex_engine database (''.*'' @ ''widget'' @ ''.*'') ''i'' = Inr matcher
         \<and> \<lparr>data = JSON_stringify (JArr [document_of widget]), statusCode = 200\<rparr> =
             \<lparr>data = JSON_stringify (JArr (map document_of
                       (filter (satisfies matcher ''itemDescription'') (collections database ''items'')))),
              statusCode =
                (if filter (satisfies matcher ''itemDescription'') (collections database ''items'') = []
                 then 404 else 200)\<rparr>"
    by (rule mp[OF conjunct1[OF conjunct2[OF t2]] r2])
  have c: "\<exists>database. db ready = Some database \<and> failure database = None
         \<and> \<lparr>data = ''null'', statusCode = 404\<rparr> =
             \<lparr>data = JSON_stringify
                       (case List.find (\<lambda>d. upc d = js_String (PStr ''0001'')) (collections database ''items'') of
                          None \<Rightarrow> JNull | Some d \<Rightarrow> document_of d),
              statusCode =
                (if List.find (\<lambda>d. upc d = js_String (PStr ''0001'')) (collections database ''items'') = None
                 then 404 else 200)\<rparr>"
    by (rule mp[OF conjunct1[OF conjunct2[OF conjunct2[OF t3]]] r3])
  have d: "\<exists>v. data \<lparr>data = JSON_stringify (document_of widget), statusCode = 200\<rparr> = JSON_stringify v
          \<and> JSON_parse (data \<lparr>data = JSON_stringify (document_of widget), statusCode = 200\<rparr>)
              = Some (toJSON v)"
    by (rule conjunct2[OF mp[OF conjunct2[OF conjunct2[OF conjunct2[OF t1]]] disjI1[OF r1]]])
  from r1 a r2 b r3 c d show ?thesis by (intro conjI)
qed

section \<open>The Brand schema: required paths\<close>

lemma map_of_omit:
  "map_of (omit names doc) k = (if k \<in> set names then None else map_of doc k)"
  by (induction doc) (auto simp: omit_def)

lemma path_ok_omit:
  assumes "path_ok doc p" and "fst p \<in> set names \<longrightarrow> \<not> required (snd p)"
  shows "path_ok (omit names doc) p"
  using assms by (simp add: path_ok_def map_of_omit)

text \<open>
  Claim C9. A document the Brand schema accepts has its \<^verbatim>\<open>id\<close> and its
  \<^verbatim>\<open>description\<close>, and it is still accepted without its \<^verbatim>\<open>manufacturer\<close>, its
  \<^verbatim>\<open>address\<close> and its \<^verbatim>\<open>website\<close>; a document that has none of the three is
  accepted.
\<close>

theorem brandSchema_required:
  "(accepted brandSchema doc \<longrightarrow>
      present doc ''id'' \<and> present doc ''description''
      \<and> accepted brandSchema (omit [''manufacturer'', ''address'', ''website''] doc))
   \<and> accepted brandSchema minimal_brand
   \<and> \<not> present minimal_brand ''manufacturer''
   \<and> \<not> present minimal_brand ''address''
   \<and> \<not> present minimal_brand ''website''"
proof (intro conjI impI)
  assume acc: "accepted brandSchema doc"
  then have a: "path_ok doc (''id'', \<lparr>path_type = ObjectId, required = True\<rparr>)"
    and b: "path_ok doc (''description'', \<lparr>path_type = SchemaString, required = True\<rparr>)"
    by (simp_all add: accepted_def brandSchema_def)
  from a show "present doc ''id''"
    by (auto simp: path_ok_def present_def split: option.splits jsval.splits)
  from b show "present doc ''description''"
    by (auto simp: path_ok_def present_def split: option.splits jsval.splits)
  from acc show "accepted brandSchema (omit [''manufacturer'', ''address'', ''website''] doc)"
    by (simp add: accepted_def brandSchema_def path_ok_omit)
qed (simp_all add: accepted_def brandSchema_def minimal_brand_def path_ok_def present_def)

theorem brandSchema_required_witness:
  "accepted brandSchema full_brand \<and> present full_brand ''id''
   \<and> present full_brand ''description''
   \<and> omit [''manufacturer'', ''address'', ''website''] full_brand = minimal_brand
   \<and> accepted brandSchema minimal_brand"
proof -
  have a: "accepted brandSchema full_brand"
    by (simp add: accepted_def brandSchema_def minimal_brand_def full_brand_def path_ok_def)
  have o: "omit [''manufacturer'', ''address'', ''website''] full_brand = minimal_brand"
    by (simp add: omit_def full_brand_def minimal_brand_def)
  from brandSchema_required[of full_brand] a o show ?thesis by simp
qed

section \<open>Special characters in the search text\<close>

lemma literal_char:
  assumes "c \<notin> set metacharacters"
  shows "atom_of c = Some (Lit c)" and "quantifier c = None"
  using assms by (auto simp: atom_of_def quantifier_def metacharacters_def)

lemma compile_literal_tail:
  "literal s \<Longrightarrow>
     compile (s @ ''.*'') = Some (map (\<lambda>c. (Lit c, Once)) s @ [(AnyChar, Star)])"
proof (induction s)
  case Nil
  show ?case by (simp add: atom_of_def quantifier_def)
next
  case (Cons c s)
  then have c: "c \<notin> set metacharacters" and s: "literal s" by (simp_all add: literal_def)
  have q: "quantifier (hd (s @ ''.*'')) = None"
  proof (cases s)
    case Nil
    then show ?thesis by (simp add: quantifier_def)
  next
    case (Cons c' s')
    with s have "c' \<notin> set metacharacters" by (simp add: literal_def)
    with Cons show ?thesis by (simp add: literal_char)
  qed
  obtain q r where qr: "s @ ''.*'' = q # r" by (cases "s @ ''.*''") auto
  with q have "quantifier q = None" by simp
  with qr Cons.IH[OF s] show ?case by (simp add: literal_char[OF c])
qed

lemma compile_search_pattern:
  "literal s \<Longrightarrow>
     compile (''.*'' @ s @ ''.*'') =
       Some ((AnyChar, Star) # map (\<lambda>c. (Lit c, Once)) s @ [(AnyChar, Star)])"
  using compile_literal_tail[of s]
  by (cases "s @ ''.*''") (auto simp: atom_of_def quantifier_def)

lemma matches_here_any_star: "matches_here ci [(AnyChar, Star)] s"
  by (cases s) simp_all

lemma matches_here_literals:
  "matches_here True (map (\<lambda>c. (Lit c, Once)) x @ r) s \<longleftrightarrow>
     (\<exists>p t. s = p @ t \<and> map lower p = map lower x \<and> matches_here True r t)"
proof (induction x arbitrary: s)
  case Nil
  show ?case by simp
next
  case (Cons c x)
  show ?case
  proof (cases s)
    case Nil
    then show ?thesis by simp
  next
    case (Cons d s')
    show ?thesis
    proof
      assume "matches_here True (map (\<lambda>c. (Lit c, Once)) (c # x) @ r) s"
      with Cons have "lower c = lower d"
        and "matches_here True (map (\<lambda>c. (Lit c, Once)) x @ r) s'" by simp_all
      with Cons.IH[of s'] obtain p t where "s' = p @ t" "map lower p = map lower x"
        "matches_here True r t" by blast
      with Cons \<open>lower c = lower d\<close>
      have "s = (d # p) @ t \<and> map lower (d # p) = map lower (c # x) \<and> matches_here True r t"
        by simp
      then show "\<exists>p t. s = p @ t \<and> map lower p = map lower (c # x) \<and> matches_here True r t"
        by blast
    next
      assume "\<exists>p t. s = p @ t \<and> map lower p = map lower (c # x) \<and> matches_here True r t"
      then obtain p t where pt: "s = p @ t" "map lower p = map lower (c # x)"
        "matches_here True r t" by blast
      from pt(2) obtain e p' where p: "p = e # p'" "lower e = lower c" "map lower p' = map lower x"
        by (cases p) auto
      with pt Cons have "d = e" "s' = p' @ t" by simp_all
      with p pt(3) Cons.IH[of s'] have "matches_here True (map (\<lambda>c. (Lit c, Once)) x @ r) s'"
        by blast
      with Cons p \<open>d = e\<close> show "matches_here True (map (\<lambda>c. (Lit c, Once)) (c # x) @ r) s"
        by simp
    qed
  qed
qed

lemma matches_here_skip: "matches_here ci r s \<Longrightarrow> matches_here ci ((AnyChar, Star) # r) s"
  by (cases s) simp_all

lemma matches_here_star_suffix:
  "matches_here ci ((AnyChar, Star) # r) s \<Longrightarrow> \<exists>t. suffix t s \<and> matches_here ci r t"
proof (induction s)
  case Nil
  then show ?case by auto
next
  case (Cons c s)
  from Cons.prems consider "matches_here ci r (c # s)" | "matches_here ci ((AnyChar, Star) # r) s"
    by auto
  then show ?case
  proof cases
    case 1
    then show ?thesis by blast
  next
    case 2
    with Cons.IH obtain t where "suffix t s" "matches_here ci r t" by blast
    then show ?thesis by (meson suffix_ConsI)
  qed
qed

lemma search_iff: "search ci r s \<longleftrightarrow> (\<exists>t. suffix t s \<and> matches_here ci r t)"
proof (induction s)
  case Nil
  show ?case by simp
next
  case (Cons c s)
  show ?case by (auto simp: Cons.IH suffix_Cons)
qed

lemma search_any_star:
  "search ci ((AnyChar, Star) # r) s \<longleftrightarrow> (\<exists>t. suffix t s \<and> matches_here ci r t)"
proof
  assume "search ci ((AnyChar, Star) # r) s"
  then obtain u where u: "suffix u s" "matches_here ci ((AnyChar, Star) # r) u"
    by (auto simp: search_iff)
  from matches_here_star_suffix[OF u(2)] obtain t where "suffix t u" "matches_here ci r t"
    by blast
  with u(1) show "\<exists>t. suffix t s \<and> matches_here ci r t"
    by (meson suffix_order.trans)
next
  assume "\<exists>t. suffix t s \<and> matches_here ci r t"
  then show "search ci ((AnyChar, Star) # r) s"
    by (auto simp: search_iff intro: matches_here_skip)
qed

lemma search_contains:
  "search True ((AnyChar, Star) # map (\<lambda>c. (Lit c, Once)) x @ [(AnyChar, Star)]) s
     \<longleftrightarrow> contains_ci s x"
proof -
  have "search True ((AnyChar, Star) # map (\<lambda>c. (Lit c, Once)) x @ [(AnyChar, Star)]) s
      \<longleftrightarrow> (\<exists>u p t. s = u @ p @ t \<and> map lower p = map lower x)"
    by (auto simp: search_any_star matches_here_literals matches_here_any_star suffix_def)
  also have "\<dots> \<longleftrightarrow> sublist (map lower x) (map lower s)"
  proof
    assume "\<exists>u p t. s = u @ p @ t \<and> map lower p = map lower x"
    then obtain u p t where "s = u @ p @ t" "map lower p = map lower x" by blast
    then have "map lower s = map lower u @ map lower x @ map lower t" by simp
    then show "sublist (map lower x) (map lower s)" by (auto simp: sublist_def)
  next
    assume "sublist (map lower x) (map lower s)"
    then obtain ps ss where "map lower s = ps @ map lower x @ ss" by (auto simp: sublist_def)
    then obtain u v where uv: "s = u @ v" "map lower x @ ss = map lower v"
      unfolding map_eq_append_conv by blast
    from uv(2) obtain p t where "v = p @ t" "map lower p = map lower x"
      unfolding append_eq_map_conv by metis
    with uv show "\<exists>u p t. s = u @ p @ t \<and> map lower p = map lower x" by blast
  qed
  finally show ?thesis by (simp add: contains_ci_def)
qed

lemma pcre_fragment_literal:
  "literal x \<Longrightarrow> pcre_fragment (''.*'' @ x @ ''.*'') ''i'' =
     Inr (search True ((AnyChar, Star) # map (\<lambda>c. (Lit c, Once)) x @ [(AnyChar, Star)]))"
  using compile_search_pattern[of x] by (simp add: pcre_fragment_def)

text \<open>
  A search text without special characters. With the fragment as the store's engine,
  the lookup returns exactly the stored items whose description contains the text,
  letters compared without their case.
\<close>

theorem findByDescription_literal:
  assumes "db w = Some database" and "failure database = None"
    and "regex_engine database = pcre_fragment" and "literal partialDescription"
  shows "findByDescription partialDescription w =
           (Resolved
              \<lparr>data = JSON_stringify (JArr (map document_of
                        (filter (\<lambda>d. contains_ci (itemDescription d) partialDescription)
                           (collections database ''items'')))),
               statusCode =
                 (if filter (\<lambda>d. contains_ci (itemDescription d) partialDescription)
                       (collections database ''items'') = []
                  then 404 else 200)\<rparr>, w)"
proof -
  let ?m = "search True ((AnyChar, Star) # map (\<lambda>c. (Lit c, Once)) partialDescription @ [(AnyChar, Star)])"
  have e: "regex_engine database (''.*'' @ partialDescription @ ''.*'') ''i'' = Inr ?m"
    using assms(3,4) by (simp only: pcre_fragment_literal)
  have s: "satisfies ?m ''itemDescription'' = (\<lambda>d. contains_ci (itemDescription d) partialDescription)"
    by (rule ext) (simp only: satisfies_def field_of_simps option.case jsval.case search_contains)
  from findByDescription_answered[OF assms(1,2) e] show ?thesis
    by (simp only: s)
qed

text \<open>
  Claim C4 at the text \<^verbatim>\<open>1+1\<close>. The stored item \<open>soap\<close> has the description
  \<^verbatim>\<open>Buy 1+1 Soap\<close>, which contains the text, but the search pattern
  \<^verbatim>\<open>.*1+1.*\<close> reads the plus sign as a quantifier and asks for two adjacent
  \<^verbatim>\<open>1\<close>s: the lookup resolves with an empty array and status 404.
\<close>

theorem findByDescription_metacharacter:
  "soap \<in> set (collections catalog ''items'')
   \<and> contains_ci (itemDescription soap) ''1+1''
   \<and> findByDescription ''1+1'' ready = (Resolved \<lparr>data = ''[]'', statusCode = 404\<rparr>, ready)"
proof -
  have c: "contains_ci (itemDescription soap) ''1+1''"
    by code_simp
  have p: "regex_engine catalog (''.*'' @ ''1+1'' @ ''.*'') ''i'' =
     Inr (search True [(AnyChar, Star), (Lit CHR ''1'', Plus), (Lit CHR ''1'', Once), (AnyChar, Star)])"
    using compile_plus by (simp add: catalog_simps)
  have m: "soap \<in> set (collections catalog ''items'')" by (simp add: catalog_simps)
  from findByDescription_answered[OF ready_db catalog_simps(1) p]
  have "findByDescription ''1+1'' ready = (Resolved \<lparr>data = ''[]'', statusCode = 404\<rparr>, ready)"
    by (simp add: plus_nowhere)
  with c m show ?thesis by simp
qed

end
